theory Spec2Isabelle
  imports Main
begin

section \<open>The pulsar Vite plugin: caches, transforms and hot updates\<close>

text \<open>
  The repository holds three versions of the plugin factory \<^verbatim>\<open>pulsarPlugin\<close>:
  \<^item> \<^verbatim>\<open>src/index.ts\<close>, lines 36-136: the program is built once in \<^verbatim>\<open>buildStart\<close>
    and the plugin keeps the set \<^verbatim>\<open>transformedFiles\<close>; its functions carry the suffix
    \<open>_tracked\<close> here;
  \<^item> \<^verbatim>\<open>src/index.ts\<close>, lines 542-654: every cache access is gated by
    \<^verbatim>\<open>shouldCache = !isDevMode || enableCache\<close>; suffix \<open>_gated\<close>;
  \<^item> \<^verbatim>\<open>vite-plugin-temp/src/index.ts\<close>: two module-level caches and a single hook;
    suffix \<open>_temp\<close>.

  The TypeScript compiler, the transformer module and the bundler are outside the
  repository. They enter the model as the record \<open>ext\<close> of their results, and every
  call the plugin makes to them is listed in the events a hook returns.
\<close>

subsection \<open>Values\<close>

text \<open>
  The default export of \<^verbatim>\<open>@pulsar-framework/transformer\<close> is an opaque function value.
  The tag tells two such values apart.
\<close>

datatype transformer = Transformer nat

text \<open>
  A \<^verbatim>\<open>ts.Program\<close> is an object: \<open>roots\<close> is the list of root file names given to
  \<^verbatim>\<open>ts.createProgram\<close> (the compiler options are the same constant in every call), and
  \<open>built_at\<close> is the number of programs built before it, which stands for the identity
  of the object.
\<close>

record program =
  roots :: "string list"
  built_at :: nat

datatype error = LoadFailure | TransformFailure

datatype status = Fresh | Cached

text \<open>The object returned by a transform: \<^verbatim>\<open>{ code: outputCode, map: null }\<close>.\<close>

record transformResult =
  outputCode :: string
  sourceMap :: "string option"

text \<open>\<^verbatim>\<open>config.command\<close> of the resolved configuration.\<close>

datatype command = Build | Serve

text \<open>The part of a \<^verbatim>\<open>ModuleNode\<close> and of the \<^verbatim>\<open>HmrContext\<close> that the plugin reads.\<close>

record moduleNode =
  url :: string
  mfile :: "string option"

record hmrContext =
  hmr_file :: string
  modules :: "moduleNode list"

text \<open>\<^verbatim>\<open>PulsarPluginOptions\<close>: the optional field \<^verbatim>\<open>enableCache\<close>.\<close>

record pulsarPluginOptions =
  opt_enableCache :: "bool option"

text \<open>
  What the plugin does to the outside: the dynamic \<^verbatim>\<open>import()\<close> of the transformer
  module, a call of \<^verbatim>\<open>ts.createProgram\<close> (with the program it returned), the run of
  the transformer over the source file (transformer, program, file name and source text;
  the program is absent where the code passes \<^verbatim>\<open>null\<close>), a line on the console (file
  name and the status printed, if any), and \<^verbatim>\<open>moduleGraph.invalidateModule\<close>.
\<close>

datatype event =
    Import
  | CreateProgram program
  | TransformCall transformer "program option" string string
  | ConsoleLog string "status option"
  | InvalidateModule moduleNode

text \<open>
  The collaborators. \<open>importTransformer\<close> is the outcome of
  \<^verbatim>\<open>await import('@pulsar-framework/transformer')\<close> followed by \<^verbatim>\<open>.default\<close>: the module
  system gives the same module to every import, or the import rejects.
  \<open>transformAndPrint\<close> is \<^verbatim>\<open>transformer(program)\<close>, \<^verbatim>\<open>ts.transform\<close> over the source
  file created from the file name and the text, and \<^verbatim>\<open>printer.printFile\<close>; any of them
  may throw. Its result depends on a program through what the program was built from
  (the files on disk are held fixed), not through the identity of the object.
\<close>

record ext =
  importTransformer :: "error + transformer"
  transformAndPrint ::
    "transformer \<Rightarrow> string list option \<Rightarrow> string \<Rightarrow> string \<Rightarrow> error + string"

text \<open>
  The variables a plugin instance closes over. \<open>programsBuilt\<close> counts the calls of
  \<^verbatim>\<open>ts.createProgram\<close> so far; it numbers the program objects and nothing reads it
  otherwise. The version in \<^verbatim>\<open>vite-plugin-temp\<close> has the two caches only; the gated
  version adds \<^verbatim>\<open>isDevMode\<close> and \<^verbatim>\<open>enableCache\<close>; the tracked version adds
  \<^verbatim>\<open>transformedFiles\<close>.
\<close>

record temp_state =
  cachedTransformer :: "transformer option"
  cachedProgram :: "program option"
  programsBuilt :: nat

record gated_state = temp_state +
  isDevMode :: bool
  enableCache :: bool

record tracked_state = gated_state +
  transformedFiles :: "string set"

type_synonym outcome = "error + transformResult option"

subsection \<open>Strings\<close>

text \<open>\<^verbatim>\<open>s.endsWith(suf)\<close>.\<close>

definition endsWith :: "string \<Rightarrow> string \<Rightarrow> bool" where
  "endsWith s suf \<longleftrightarrow>
     length suf \<le> length s \<and> drop (length s - length suf) s = suf"

text \<open>
  \<^verbatim>\<open>id.split('/').pop()\<close>: the part of the name after its last slash (the whole name
  when it has none).
\<close>

definition fileName :: "string \<Rightarrow> string" where
  "fileName ident = rev (takeWhile (\<lambda>c. c \<noteq> CHR ''/'') (rev ident))"

text \<open>\<^verbatim>\<open>ts.createProgram(rootNames, compilerOptions, host)\<close>: a new object each time.\<close>

definition createProgram :: "string list \<Rightarrow> nat \<Rightarrow> program" where
  "createProgram rootNames n = \<lparr>roots = rootNames, built_at = n\<rparr>"

definition result :: "string \<Rightarrow> outcome" where
  "result out = Inr (Some \<lparr>outputCode = out, sourceMap = None\<rparr>)"

text \<open>The statuses printed on the console, in order.\<close>

fun statuses :: "event list \<Rightarrow> status list" where
  "statuses [] = []"
| "statuses (ConsoleLog f (Some s) # es) = s # statuses es"
| "statuses (e # es) = statuses es"

text \<open>The runs of the transformer, in order: transformer, program, file name, text.\<close>

fun transformCalls ::
  "event list \<Rightarrow> (transformer \<times> program option \<times> string \<times> string) list" where
  "transformCalls [] = []"
| "transformCalls (TransformCall t p i c # es) = (t, p, i, c) # transformCalls es"
| "transformCalls (e # es) = transformCalls es"

text \<open>The programs built, in order.\<close>

fun builds :: "event list \<Rightarrow> program list" where
  "builds [] = []"
| "builds (CreateProgram p # es) = p # builds es"
| "builds (e # es) = builds es"

text \<open>The number of dynamic imports.\<close>

fun imports_of :: "event list \<Rightarrow> nat" where
  "imports_of [] = 0"
| "imports_of (Import # es) = Suc (imports_of es)"
| "imports_of (e # es) = imports_of es"

subsection \<open>The tracked version (\<^verbatim>\<open>src/index.ts\<close>, lines 36-136)\<close>

definition pulsarPlugin_tracked :: "pulsarPluginOptions \<Rightarrow> tracked_state" where
  "pulsarPlugin_tracked options =
     \<lparr>cachedTransformer = None, cachedProgram = None, programsBuilt = 0,
      isDevMode = True,
      enableCache = (case opt_enableCache options of None \<Rightarrow> False | Some b \<Rightarrow> b),
      transformedFiles = {}\<rparr>"

definition configResolved_tracked :: "command \<Rightarrow> tracked_state \<Rightarrow> tracked_state" where
  "configResolved_tracked cmd st = st\<lparr>isDevMode := (cmd = Serve)\<rparr>"

definition buildStart_tracked :: "tracked_state \<Rightarrow> event list \<times> tracked_state" where
  "buildStart_tracked st =
     (case cachedProgram st of
        None \<Rightarrow>
          (let p = createProgram [] (programsBuilt st)
           in ([CreateProgram p],
               st\<lparr>cachedProgram := Some p, programsBuilt := Suc (programsBuilt st)\<rparr>))
      | Some p \<Rightarrow> ([], st))"

text \<open>
  The transform from \<^verbatim>\<open>ts.createSourceFile\<close> to the \<^verbatim>\<open>return\<close> (lines 78-116), with
  \<open>t\<close> the value of \<^verbatim>\<open>cachedTransformer\<close>. The program is \<^verbatim>\<open>cachedProgram!\<close>, whatever
  it holds. The status is computed and the file recorded in dev mode only.
\<close>

definition transform_tracked_tail ::
  "ext \<Rightarrow> tracked_state \<Rightarrow> transformer \<Rightarrow> string \<Rightarrow> string
     \<Rightarrow> outcome \<times> event list \<times> tracked_state" where
  "transform_tracked_tail x st t src ident =
     (let prog = cachedProgram st;
          call = TransformCall t prog ident src
      in case transformAndPrint x t (map_option roots prog) ident src of
           Inl e \<Rightarrow> (Inl e, [call], st)
         | Inr out \<Rightarrow>
             if isDevMode st then
               (let st_status = (if ident \<in> transformedFiles st then Cached else Fresh)
                in (result out,
                    [call, ConsoleLog (fileName ident) (Some st_status)],
                    st\<lparr>transformedFiles := insert ident (transformedFiles st)\<rparr>))
             else (result out, [call], st))"

text \<open>
  \<^verbatim>\<open>transform(code, id)\<close>, run without another hook in between. A rejected import
  leaves the closure as it was.
\<close>

definition transform_tracked ::
  "ext \<Rightarrow> tracked_state \<Rightarrow> string \<Rightarrow> string \<Rightarrow> outcome \<times> event list \<times> tracked_state" where
  "transform_tracked x st src ident =
     (if \<not> endsWith ident ''.tsx'' then (Inr None, [], st)
      else
        case cachedTransformer st of
          Some t \<Rightarrow> transform_tracked_tail x st t src ident
        | None \<Rightarrow>
            (case importTransformer x of
               Inl e \<Rightarrow> (Inl e, [Import], st)
             | Inr t \<Rightarrow>
                 (case transform_tracked_tail x (st\<lparr>cachedTransformer := Some t\<rparr>) t src ident of
                    (out, evs, st') \<Rightarrow> (out, Import # evs, st'))))"

text \<open>
  \<^verbatim>\<open>handleHotUpdate(ctx)\<close>: the modules to update, or nothing (\<^verbatim>\<open>undefined\<close>) for a
  file that is not a \<^verbatim>\<open>.tsx\<close> file.
\<close>

definition invalidations :: "hmrContext \<Rightarrow> event list" where
  "invalidations ctx =
     (case find (\<lambda>m. mfile m = Some (hmr_file ctx)) (modules ctx) of
        None \<Rightarrow> []
      | Some m \<Rightarrow> [InvalidateModule m])"

definition handleHotUpdate_tracked ::
  "hmrContext \<Rightarrow> tracked_state \<Rightarrow> moduleNode list option \<times> event list \<times> tracked_state" where
  "handleHotUpdate_tracked ctx st =
     (if endsWith (hmr_file ctx) ''.tsx'' then
        (Some (modules ctx), invalidations ctx,
         st\<lparr>transformedFiles := transformedFiles st - {hmr_file ctx}\<rparr>)
      else (None, [], st))"

subsection \<open>The gated version (\<^verbatim>\<open>src/index.ts\<close>, lines 542-654)\<close>

definition pulsarPlugin_gated :: "pulsarPluginOptions \<Rightarrow> gated_state" where
  "pulsarPlugin_gated options =
     \<lparr>cachedTransformer = None, cachedProgram = None, programsBuilt = 0,
      isDevMode = True,
      enableCache = (case opt_enableCache options of None \<Rightarrow> False | Some b \<Rightarrow> b)\<rparr>"

definition configResolved_gated :: "command \<Rightarrow> gated_state \<Rightarrow> gated_state" where
  "configResolved_gated cmd st =
     (let st1 = st\<lparr>isDevMode := (cmd = Serve)\<rparr>
      in if isDevMode st1 \<and> \<not> enableCache st1
         then st1\<lparr>cachedTransformer := None, cachedProgram := None\<rparr>
         else st1)"

text \<open>\<^verbatim>\<open>const shouldCache = !isDevMode || enableCache\<close>.\<close>

definition shouldCache :: "gated_state \<Rightarrow> bool" where
  "shouldCache st \<longleftrightarrow> \<not> isDevMode st \<or> enableCache st"

text \<open>
  The transform from \<^verbatim>\<open>ts.createSourceFile\<close> to the \<^verbatim>\<open>return\<close> (lines 587-634), with
  \<open>t\<close> the local \<^verbatim>\<open>transformer\<close>.
\<close>

definition transform_gated_tail ::
  "ext \<Rightarrow> gated_state \<Rightarrow> transformer \<Rightarrow> string \<Rightarrow> string
     \<Rightarrow> outcome \<times> event list \<times> gated_state" where
  "transform_gated_tail x st t src ident =
     (let (built, prog, st1) =
            (case (shouldCache st, cachedProgram st) of
               (True, Some p) \<Rightarrow> ([], p, st)
             | _ \<Rightarrow>
                 (let p = createProgram [ident] (programsBuilt st);
                      st0 = st\<lparr>programsBuilt := Suc (programsBuilt st)\<rparr>
                  in ([CreateProgram p], p,
                      if shouldCache st then st0\<lparr>cachedProgram := Some p\<rparr> else st0)));
          call = TransformCall t (Some prog) ident src
      in case transformAndPrint x t (Some (roots prog)) ident src of
           Inl e \<Rightarrow> (Inl e, built @ [call], st1)
         | Inr out \<Rightarrow>
             if isDevMode st then
               (result out,
                built @ [call,
                  ConsoleLog (fileName ident) (Some (if shouldCache st then Cached else Fresh))],
                st1)
             else (result out, built @ [call], st1))"

definition transform_gated ::
  "ext \<Rightarrow> gated_state \<Rightarrow> string \<Rightarrow> string \<Rightarrow> outcome \<times> event list \<times> gated_state" where
  "transform_gated x st src ident =
     (if \<not> endsWith ident ''.tsx'' then (Inr None, [], st)
      else
        case (shouldCache st, cachedTransformer st) of
          (True, Some t) \<Rightarrow> transform_gated_tail x st t src ident
        | _ \<Rightarrow>
            (case importTransformer x of
               Inl e \<Rightarrow> (Inl e, [Import], st)
             | Inr t \<Rightarrow>
                 (case transform_gated_tail x
                         (if shouldCache st then st\<lparr>cachedTransformer := Some t\<rparr> else st)
                         t src ident of
                    (out, evs, st') \<Rightarrow> (out, Import # evs, st'))))"

definition handleHotUpdate_gated ::
  "hmrContext \<Rightarrow> gated_state \<Rightarrow> moduleNode list option \<times> event list \<times> gated_state" where
  "handleHotUpdate_gated ctx st =
     (if endsWith (hmr_file ctx) ''.tsx'' then
        (Some (modules ctx), invalidations ctx, st\<lparr>cachedProgram := None\<rparr>)
      else (None, [], st))"

subsection \<open>The version in \<^verbatim>\<open>vite-plugin-temp/src/index.ts\<close>\<close>

definition pulsarPlugin_temp :: temp_state where
  "pulsarPlugin_temp = \<lparr>cachedTransformer = None, cachedProgram = None, programsBuilt = 0\<rparr>"

text \<open>Lines 51-87, with \<open>t\<close> the value of \<^verbatim>\<open>cachedTransformer\<close>. The line logged has no status.\<close>

definition transform_temp_tail ::
  "ext \<Rightarrow> temp_state \<Rightarrow> transformer \<Rightarrow> string \<Rightarrow> string
     \<Rightarrow> outcome \<times> event list \<times> temp_state" where
  "transform_temp_tail x st t src ident =
     (let (built, prog, st1) =
            (case cachedProgram st of
               Some p \<Rightarrow> ([], p, st)
             | None \<Rightarrow>
                 (let p = createProgram [ident] (programsBuilt st)
                  in ([CreateProgram p], p,
                      st\<lparr>cachedProgram := Some p, programsBuilt := Suc (programsBuilt st)\<rparr>)));
          call = TransformCall t (Some prog) ident src
      in case transformAndPrint x t (Some (roots prog)) ident src of
           Inl e \<Rightarrow> (Inl e, built @ [call], st1)
         | Inr out \<Rightarrow> (result out, built @ [call, ConsoleLog (fileName ident) None], st1))"

definition transform_temp ::
  "ext \<Rightarrow> temp_state \<Rightarrow> string \<Rightarrow> string \<Rightarrow> outcome \<times> event list \<times> temp_state" where
  "transform_temp x st src ident =
     (if \<not> endsWith ident ''.tsx'' then (Inr None, [], st)
      else
        case cachedTransformer st of
          Some t \<Rightarrow> transform_temp_tail x st t src ident
        | None \<Rightarrow>
            (case importTransformer x of
               Inl e \<Rightarrow> (Inl e, [Import], st)
             | Inr t \<Rightarrow>
                 (case transform_temp_tail x (st\<lparr>cachedTransformer := Some t\<rparr>) t src ident of
                    (out, evs, st') \<Rightarrow> (out, Import # evs, st'))))"

subsection \<open>Sequences of hooks\<close>

text \<open>
  The hooks that the bundler calls, run one after the other on the gated version, which
  has no \<^verbatim>\<open>buildStart\<close> hook; the events of the whole run are returned.
\<close>

datatype hook =
    Transform string string
  | HotUpdate hmrContext
  | ConfigResolved command
  | BuildStart

fun run_gated :: "ext \<Rightarrow> gated_state \<Rightarrow> hook list \<Rightarrow> event list \<times> gated_state" where
  "run_gated x st [] = ([], st)"
| "run_gated x st (Transform src ident # hs) =
     (case transform_gated x st src ident of
        (out, evs, st') \<Rightarrow>
          (case run_gated x st' hs of (evs', st'') \<Rightarrow> (evs @ evs', st'')))"
| "run_gated x st (HotUpdate ctx # hs) =
     (case handleHotUpdate_gated ctx st of
        (ms, evs, st') \<Rightarrow>
          (case run_gated x st' hs of (evs', st'') \<Rightarrow> (evs @ evs', st'')))"
| "run_gated x st (ConfigResolved cmd # hs) = run_gated x (configResolved_gated cmd st) hs"
| "run_gated x st (BuildStart # hs) = run_gated x st hs"

text \<open>The same for the tracked version, which has a \<^verbatim>\<open>buildStart\<close> hook.\<close>

fun run_tracked :: "ext \<Rightarrow> tracked_state \<Rightarrow> hook list \<Rightarrow> event list \<times> tracked_state" where
  "run_tracked x st [] = ([], st)"
| "run_tracked x st (Transform src ident # hs) =
     (case transform_tracked x st src ident of
        (out, evs, st') \<Rightarrow>
          (case run_tracked x st' hs of (evs', st'') \<Rightarrow> (evs @ evs', st'')))"
| "run_tracked x st (HotUpdate ctx # hs) =
     (case handleHotUpdate_tracked ctx st of
        (ms, evs, st') \<Rightarrow>
          (case run_tracked x st' hs of (evs', st'') \<Rightarrow> (evs @ evs', st'')))"
| "run_tracked x st (ConfigResolved cmd # hs) = run_tracked x (configResolved_tracked cmd st) hs"
| "run_tracked x st (BuildStart # hs) =
     (case buildStart_tracked st of
        (evs, st') \<Rightarrow>
          (case run_tracked x st' hs of (evs', st'') \<Rightarrow> (evs @ evs', st'')))"

text \<open>The files that a sequence of hooks transforms.\<close>

fun transformed :: "hook list \<Rightarrow> string list" where
  "transformed [] = []"
| "transformed (Transform src ident # hs) = ident # transformed hs"
| "transformed (h # hs) = transformed hs"

text \<open>
  \<open>builtSince n st\<close>: at least \<open>n\<close> programs have been built and the cached program,
  if there is one, is not among the first \<open>n\<close>. \<open>usedSince n evs\<close>: every run of the
  transformer in \<open>evs\<close> was given a program, and one that is not among the first \<open>n\<close>.
\<close>

definition builtSince :: "nat \<Rightarrow> gated_state \<Rightarrow> bool" where
  "builtSince n st \<longleftrightarrow>
     n \<le> programsBuilt st \<and>
     (case cachedProgram st of None \<Rightarrow> True | Some p \<Rightarrow> n \<le> built_at p)"

fun usedSince :: "nat \<Rightarrow> event list \<Rightarrow> bool" where
  "usedSince n [] = True"
| "usedSince n (TransformCall t p i c # es) =
     ((case p of None \<Rightarrow> False | Some q \<Rightarrow> n \<le> built_at q) \<and> usedSince n es)"
| "usedSince n (e # es) = usedSince n es"

subsection \<open>Transforms that overlap\<close>

text \<open>
  \<^verbatim>\<open>transform\<close> is an \<^verbatim>\<open>async\<close> function with one \<^verbatim>\<open>await\<close>, on the dynamic import.
  A call runs without interruption up to that \<^verbatim>\<open>await\<close> (or to its end, when it does
  not reach it), and from the \<^verbatim>\<open>await\<close> to its end once the import has settled. The
  first part returns no outcome when the call is suspended at the \<^verbatim>\<open>await\<close>; it has
  then called \<^verbatim>\<open>import()\<close> and written nothing.
\<close>

definition transform_tracked_start ::
  "ext \<Rightarrow> tracked_state \<Rightarrow> string \<Rightarrow> string
     \<Rightarrow> outcome option \<times> event list \<times> tracked_state" where
  "transform_tracked_start x st src ident =
     (if \<not> endsWith ident ''.tsx'' then (Some (Inr None), [], st)
      else
        case cachedTransformer st of
          Some t \<Rightarrow>
            (case transform_tracked_tail x st t src ident of
               (out, evs, st') \<Rightarrow> (Some out, evs, st'))
        | None \<Rightarrow> (None, [Import], st))"

definition transform_tracked_resume ::
  "ext \<Rightarrow> tracked_state \<Rightarrow> string \<Rightarrow> string \<Rightarrow> outcome \<times> event list \<times> tracked_state" where
  "transform_tracked_resume x st src ident =
     (case importTransformer x of
        Inl e \<Rightarrow> (Inl e, [], st)
      | Inr t \<Rightarrow> transform_tracked_tail x (st\<lparr>cachedTransformer := Some t\<rparr>) t src ident)"

text \<open>
  In the gated version \<^verbatim>\<open>shouldCache\<close> is a constant of the call, computed before the
  \<^verbatim>\<open>await\<close>; no transform writes \<^verbatim>\<open>isDevMode\<close> or \<^verbatim>\<open>enableCache\<close>, so its value is
  the same after the \<^verbatim>\<open>await\<close>.
\<close>

definition transform_gated_start ::
  "ext \<Rightarrow> gated_state \<Rightarrow> string \<Rightarrow> string
     \<Rightarrow> outcome option \<times> event list \<times> gated_state" where
  "transform_gated_start x st src ident =
     (if \<not> endsWith ident ''.tsx'' then (Some (Inr None), [], st)
      else
        case (shouldCache st, cachedTransformer st) of
          (True, Some t) \<Rightarrow>
            (case transform_gated_tail x st t src ident of
               (out, evs, st') \<Rightarrow> (Some out, evs, st'))
        | _ \<Rightarrow> (None, [Import], st))"

definition transform_gated_resume ::
  "ext \<Rightarrow> gated_state \<Rightarrow> string \<Rightarrow> string \<Rightarrow> outcome \<times> event list \<times> gated_state" where
  "transform_gated_resume x st src ident =
     (case importTransformer x of
        Inl e \<Rightarrow> (Inl e, [], st)
      | Inr t \<Rightarrow>
          transform_gated_tail x
            (if shouldCache st then st\<lparr>cachedTransformer := Some t\<rparr> else st) t src ident)"

text \<open>
  Calls that begin together: each call (source text, file name) runs its first part, in
  order, before the import settles; then the suspended calls run their second part, in
  the order of their imports. \<open>startAll\<close> returns every call with its outcome, if it
  has one already.
\<close>

fun startAll ::
  "('s \<Rightarrow> string \<Rightarrow> string \<Rightarrow> outcome option \<times> event list \<times> 's) \<Rightarrow> 's
     \<Rightarrow> (string \<times> string) list
     \<Rightarrow> ((string \<times> string) \<times> outcome option) list \<times> event list \<times> 's" where
  "startAll start st [] = ([], [], st)"
| "startAll start st ((src, ident) # cs) =
     (case start st src ident of
        (r, evs, st') \<Rightarrow>
          (case startAll start st' cs of
             (ps, evs', st'') \<Rightarrow> (((src, ident), r) # ps, evs @ evs', st'')))"

fun resumeAll ::
  "('s \<Rightarrow> string \<Rightarrow> string \<Rightarrow> outcome \<times> event list \<times> 's) \<Rightarrow> 's
     \<Rightarrow> ((string \<times> string) \<times> outcome option) list
     \<Rightarrow> outcome list \<times> event list \<times> 's" where
  "resumeAll resume st [] = ([], [], st)"
| "resumeAll resume st (((src, ident), Some out) # ps) =
     (case resumeAll resume st ps of (outs, evs, st') \<Rightarrow> (out # outs, evs, st'))"
| "resumeAll resume st (((src, ident), None) # ps) =
     (case resume st src ident of
        (out, evs, st') \<Rightarrow>
          (case resumeAll resume st' ps of
             (outs, evs', st'') \<Rightarrow> (out # outs, evs @ evs', st'')))"

definition concurrent ::
  "('s \<Rightarrow> string \<Rightarrow> string \<Rightarrow> outcome option \<times> event list \<times> 's)
     \<Rightarrow> ('s \<Rightarrow> string \<Rightarrow> string \<Rightarrow> outcome \<times> event list \<times> 's)
     \<Rightarrow> 's \<Rightarrow> (string \<times> string) list \<Rightarrow> outcome list \<times> event list \<times> 's" where
  "concurrent start resume st cs =
     (case startAll start st cs of
        (ps, evs, st1) \<Rightarrow>
          (case resumeAll resume st1 ps of
             (outs, evs', st2) \<Rightarrow> (outs, evs @ evs', st2)))"

subsection \<open>Sample collaborators and sessions\<close>

text \<open>
  A transformer module that loads, and a transform step that prints the root files of
  the program it was given (\<^verbatim>\<open>program.getRootFileNames()\<close>) in front of the text.
\<close>

definition sample_ext :: ext where
  "sample_ext =
     \<lparr>importTransformer = Inr (Transformer 0),
      transformAndPrint = (\<lambda>t rs ident src.
        Inr (''// roots: '' @ concat (case rs of None \<Rightarrow> [] | Some fs \<Rightarrow> fs) @ ''; '' @ src))\<rparr>"

text \<open>A change of \<^verbatim>\<open>/src/a.tsx\<close>, with its module.\<close>

definition sample_ctx :: hmrContext where
  "sample_ctx =
     \<lparr>hmr_file = ''/src/a.tsx'',
      modules = [\<lparr>url = ''/src/a.tsx'', mfile = Some ''/src/a.tsx''\<rparr>]\<rparr>"

text \<open>
  The tracked version on the dev server, after \<^verbatim>\<open>configResolved\<close> and \<^verbatim>\<open>buildStart\<close>,
  and after one and two transforms of \<^verbatim>\<open>/src/a.tsx\<close>.
\<close>

definition tracked_dev :: tracked_state where
  "tracked_dev =
     snd (buildStart_tracked
       (configResolved_tracked Serve (pulsarPlugin_tracked \<lparr>opt_enableCache = None\<rparr>)))"

definition tracked_dev_a :: tracked_state where
  "tracked_dev_a = snd (snd (transform_tracked sample_ext tracked_dev ''<a/>'' ''/src/a.tsx''))"

definition tracked_dev_aa :: tracked_state where
  "tracked_dev_aa = snd (snd (transform_tracked sample_ext tracked_dev_a ''<a/>'' ''/src/a.tsx''))"

text \<open>
  The gated version on the dev server without and with \<^verbatim>\<open>enableCache\<close>, the latter
  also after a transform of \<^verbatim>\<open>/src/x.tsx\<close>; and the gated version in a build after a
  transform of \<^verbatim>\<open>/src/x.tsx\<close>.
\<close>

definition gated_dev :: gated_state where
  "gated_dev = configResolved_gated Serve (pulsarPlugin_gated \<lparr>opt_enableCache = None\<rparr>)"

definition gated_dev_cache :: gated_state where
  "gated_dev_cache =
     configResolved_gated Serve (pulsarPlugin_gated \<lparr>opt_enableCache = Some True\<rparr>)"

definition gated_dev_cache_x :: gated_state where
  "gated_dev_cache_x =
     snd (snd (transform_gated sample_ext gated_dev_cache ''<x/>'' ''/src/x.tsx''))"

definition gated_build_x :: gated_state where
  "gated_build_x =
     snd (snd (transform_gated sample_ext
       (configResolved_gated Build (pulsarPlugin_gated \<lparr>opt_enableCache = None\<rparr>))
       ''<x/>'' ''/src/x.tsx''))"

section \<open>Properties\<close>

subsection \<open>Evaluation of the samples\<close>

lemmas hook_defs =
  transform_tracked_def transform_tracked_tail_def handleHotUpdate_tracked_def
  buildStart_tracked_def configResolved_tracked_def pulsarPlugin_tracked_def
  transform_gated_def transform_gated_tail_def handleHotUpdate_gated_def
  configResolved_gated_def pulsarPlugin_gated_def shouldCache_def
  transform_temp_def transform_temp_tail_def pulsarPlugin_temp_def
  createProgram_def result_def invalidations_def sample_ext_def sample_ctx_def Let_def

lemmas hook_splits = option.splits sum.splits if_splits prod.splits bool.splits

lemma endsWith_tsx_a [simp]: "endsWith ''/src/a.tsx'' ''.tsx''"
  by (simp add: endsWith_def)

lemma endsWith_tsx_b [simp]: "endsWith ''/src/b.tsx'' ''.tsx''"
  by (simp add: endsWith_def)

lemma endsWith_tsx_x [simp]: "endsWith ''/src/x.tsx'' ''.tsx''"
  by (simp add: endsWith_def)

lemma not_endsWith_ts [simp]: "\<not> endsWith ''/src/main.ts'' ''.tsx''"
  by (simp add: endsWith_def)

lemma fileName_a [simp]: "fileName ''/src/a.tsx'' = ''a.tsx''"
  by (simp add: fileName_def)

lemma fileName_b [simp]: "fileName ''/src/b.tsx'' = ''b.tsx''"
  by (simp add: fileName_def)

lemma fileName_x [simp]: "fileName ''/src/x.tsx'' = ''x.tsx''"
  by (simp add: fileName_def)

lemma tracked_dev_eq:
  "tracked_dev =
     \<lparr>cachedTransformer = None, cachedProgram = Some \<lparr>roots = [], built_at = 0\<rparr>,
      programsBuilt = Suc 0, isDevMode = True, enableCache = False, transformedFiles = {}\<rparr>"
  by (simp add: tracked_dev_def hook_defs)

lemma tracked_dev_a_run:
  "transform_tracked sample_ext tracked_dev ''<a/>'' ''/src/a.tsx'' =
     (Inr (Some \<lparr>outputCode = ''// roots: ; <a/>'', sourceMap = None\<rparr>),
      [Import,
       TransformCall (Transformer 0) (Some \<lparr>roots = [], built_at = 0\<rparr>) ''/src/a.tsx'' ''<a/>'',
       ConsoleLog ''a.tsx'' (Some Fresh)],
      \<lparr>cachedTransformer = Some (Transformer 0),
       cachedProgram = Some \<lparr>roots = [], built_at = 0\<rparr>,
       programsBuilt = Suc 0, isDevMode = True, enableCache = False,
       transformedFiles = {''/src/a.tsx''}\<rparr>)"
  by (simp add: tracked_dev_eq hook_defs)

lemma tracked_dev_a_eq:
  "tracked_dev_a =
     \<lparr>cachedTransformer = Some (Transformer 0),
      cachedProgram = Some \<lparr>roots = [], built_at = 0\<rparr>,
      programsBuilt = Suc 0, isDevMode = True, enableCache = False,
      transformedFiles = {''/src/a.tsx''}\<rparr>"
  by (simp add: tracked_dev_a_def tracked_dev_a_run)

lemma tracked_dev_aa_run:
  "transform_tracked sample_ext tracked_dev_a ''<a/>'' ''/src/a.tsx'' =
     (Inr (Some \<lparr>outputCode = ''// roots: ; <a/>'', sourceMap = None\<rparr>),
      [TransformCall (Transformer 0) (Some \<lparr>roots = [], built_at = 0\<rparr>) ''/src/a.tsx'' ''<a/>'',
       ConsoleLog ''a.tsx'' (Some Cached)],
      tracked_dev_a)"
  by (simp add: tracked_dev_a_eq hook_defs)

lemma tracked_dev_aa_eq: "tracked_dev_aa = tracked_dev_a"
  by (simp add: tracked_dev_aa_def tracked_dev_aa_run)

lemma gated_dev_eq:
  "gated_dev =
     \<lparr>cachedTransformer = None, cachedProgram = None, programsBuilt = 0,
      isDevMode = True, enableCache = False\<rparr>"
  by (simp add: gated_dev_def hook_defs)

lemma gated_dev_cache_eq:
  "gated_dev_cache =
     \<lparr>cachedTransformer = None, cachedProgram = None, programsBuilt = 0,
      isDevMode = True, enableCache = True\<rparr>"
  by (simp add: gated_dev_cache_def hook_defs)

lemma gated_dev_cache_x_run:
  "transform_gated sample_ext gated_dev_cache ''<x/>'' ''/src/x.tsx'' =
     (Inr (Some \<lparr>outputCode = ''// roots: /src/x.tsx; <x/>'', sourceMap = None\<rparr>),
      [Import, CreateProgram \<lparr>roots = [''/src/x.tsx''], built_at = 0\<rparr>,
       TransformCall (Transformer 0) (Some \<lparr>roots = [''/src/x.tsx''], built_at = 0\<rparr>)
         ''/src/x.tsx'' ''<x/>'',
       ConsoleLog ''x.tsx'' (Some Cached)],
      \<lparr>cachedTransformer = Some (Transformer 0),
       cachedProgram = Some \<lparr>roots = [''/src/x.tsx''], built_at = 0\<rparr>,
       programsBuilt = Suc 0, isDevMode = True, enableCache = True\<rparr>)"
  by (simp add: gated_dev_cache_eq hook_defs)

lemma gated_dev_cache_x_eq:
  "gated_dev_cache_x =
     \<lparr>cachedTransformer = Some (Transformer 0),
      cachedProgram = Some \<lparr>roots = [''/src/x.tsx''], built_at = 0\<rparr>,
      programsBuilt = Suc 0, isDevMode = True, enableCache = True\<rparr>"
  by (simp add: gated_dev_cache_x_def gated_dev_cache_x_run)

lemma gated_build_x_eq:
  "gated_build_x =
     \<lparr>cachedTransformer = Some (Transformer 0),
      cachedProgram = Some \<lparr>roots = [''/src/x.tsx''], built_at = 0\<rparr>,
      programsBuilt = Suc 0, isDevMode = False, enableCache = False\<rparr>"
  by (simp add: gated_build_x_def hook_defs)

subsection \<open>Files that are not transformed\<close>

text \<open>
  C10. A transform of a file whose name does not end in \<^verbatim>\<open>.tsx\<close> returns \<^verbatim>\<open>null\<close>,
  calls nothing outside and leaves the closure as it was: both caches and the set of
  transformed files. This holds in all three versions.
\<close>

theorem skip_leaves_state:
  assumes "\<not> endsWith ident ''.tsx''"
  shows "transform_tracked x st1 src ident = (Inr None, [], st1)
       \<and> transform_gated x st2 src ident = (Inr None, [], st2)
       \<and> transform_temp x st3 src ident = (Inr None, [], st3)"
  using assms by (simp add: transform_tracked_def transform_gated_def transform_temp_def)

theorem skip_leaves_state_witness:
  "\<not> endsWith ''/src/main.ts'' ''.tsx''
   \<and> transform_tracked sample_ext tracked_dev_a ''let a = 1'' ''/src/main.ts''
       = (Inr None, [], tracked_dev_a)
   \<and> transform_gated sample_ext gated_dev_cache_x ''let a = 1'' ''/src/main.ts''
       = (Inr None, [], gated_dev_cache_x)
   \<and> transform_temp sample_ext pulsarPlugin_temp ''let a = 1'' ''/src/main.ts''
       = (Inr None, [], pulsarPlugin_temp)"
  using skip_leaves_state [of "''/src/main.ts''" sample_ext tracked_dev_a "''let a = 1''"
      gated_dev_cache_x pulsarPlugin_temp]
  by simp

subsection \<open>What a change notification writes\<close>

text \<open>
  C6. \<^verbatim>\<open>handleHotUpdate\<close> never writes the cached transformer. For a \<^verbatim>\<open>.tsx\<close> file the
  tracked version only removes the file from \<^verbatim>\<open>transformedFiles\<close>, and the gated version
  only empties the program cache.
\<close>

theorem hot_update_keeps_transformer:
  "cachedTransformer (snd (snd (handleHotUpdate_tracked ctx st1))) = cachedTransformer st1
   \<and> cachedTransformer (snd (snd (handleHotUpdate_gated ctx st2))) = cachedTransformer st2
   \<and> (endsWith (hmr_file ctx) ''.tsx'' \<longrightarrow>
        snd (snd (handleHotUpdate_tracked ctx st1))
          = st1\<lparr>transformedFiles := transformedFiles st1 - {hmr_file ctx}\<rparr>
      \<and> snd (snd (handleHotUpdate_gated ctx st2)) = st2\<lparr>cachedProgram := None\<rparr>)"
  by (simp add: handleHotUpdate_tracked_def handleHotUpdate_gated_def)

theorem hot_update_keeps_transformer_witness:
  "endsWith (hmr_file sample_ctx) ''.tsx''
   \<and> cachedTransformer tracked_dev_a = Some (Transformer 0)
   \<and> cachedTransformer (snd (snd (handleHotUpdate_tracked sample_ctx tracked_dev_a)))
       = Some (Transformer 0)
   \<and> cachedTransformer gated_dev_cache_x = Some (Transformer 0)
   \<and> cachedTransformer (snd (snd (handleHotUpdate_gated sample_ctx gated_dev_cache_x)))
       = Some (Transformer 0)
   \<and> snd (snd (handleHotUpdate_tracked sample_ctx tracked_dev_a))
       = tracked_dev_a\<lparr>transformedFiles := {}\<rparr>
   \<and> snd (snd (handleHotUpdate_gated sample_ctx gated_dev_cache_x))
       = gated_dev_cache_x\<lparr>cachedProgram := None\<rparr>"
  using hot_update_keeps_transformer [of sample_ctx tracked_dev_a gated_dev_cache_x]
  by (simp add: sample_ctx_def tracked_dev_a_eq gated_dev_cache_x_eq)

subsection \<open>The status after a change notification\<close>

lemma transformedFiles_transform_tracked:
  "transform_tracked x st src i = (out, evs, st')
     \<Longrightarrow> transformedFiles st' \<subseteq> insert i (transformedFiles st)"
  by (auto simp: transform_tracked_def transform_tracked_tail_def Let_def split: hook_splits)

lemma transformedFiles_handleHotUpdate_tracked:
  "handleHotUpdate_tracked ctx st = (ms, evs, st') \<Longrightarrow> transformedFiles st' \<subseteq> transformedFiles st"
  by (auto simp: handleHotUpdate_tracked_def split: if_splits)

lemma transformedFiles_buildStart_tracked:
  "buildStart_tracked st = (evs, st') \<Longrightarrow> transformedFiles st' = transformedFiles st"
  by (auto simp: buildStart_tracked_def Let_def split: option.splits)

lemma transformedFiles_configResolved_tracked:
  "transformedFiles (configResolved_tracked cmd st) = transformedFiles st"
  by (simp add: configResolved_tracked_def)

lemma not_transformed_run_tracked:
  "ident \<notin> transformedFiles st \<Longrightarrow> ident \<notin> set (transformed hs)
     \<Longrightarrow> run_tracked x st hs = (evs, st') \<Longrightarrow> ident \<notin> transformedFiles st'"
proof (induction x st hs arbitrary: evs st' rule: run_tracked.induct)
  case (1 x st)
  then show ?case by simp
next
  case (2 x st src i hs)
  obtain out e1 s1 where t: "transform_tracked x st src i = (out, e1, s1)"
    by (cases "transform_tracked x st src i") auto
  obtain e2 s2 where r: "run_tracked x s1 hs = (e2, s2)"
    by (cases "run_tracked x s1 hs") auto
  from "2.prems"(2) have ne: "ident \<noteq> i" and nt: "ident \<notin> set (transformed hs)"
    by auto
  from transformedFiles_transform_tracked [OF t] "2.prems"(1) ne
  have "ident \<notin> transformedFiles s1" by auto
  from "2.IH" [OF t [symmetric] refl this nt r] "2.prems"(3) t r show ?case
    by auto
next
  case (3 x st ctx hs)
  obtain ms e1 s1 where t: "handleHotUpdate_tracked ctx st = (ms, e1, s1)"
    by (cases "handleHotUpdate_tracked ctx st") auto
  obtain e2 s2 where r: "run_tracked x s1 hs = (e2, s2)"
    by (cases "run_tracked x s1 hs") auto
  from "3.prems"(2) have nt: "ident \<notin> set (transformed hs)"
    by auto
  from transformedFiles_handleHotUpdate_tracked [OF t] "3.prems"(1)
  have "ident \<notin> transformedFiles s1" by auto
  from "3.IH" [OF t [symmetric] refl this nt r] "3.prems"(3) t r show ?case
    by auto
next
  case (4 x st cmd hs)
  then show ?case
    by (simp add: transformedFiles_configResolved_tracked)
next
  case (5 x st hs)
  obtain e1 s1 where t: "buildStart_tracked st = (e1, s1)"
    by (cases "buildStart_tracked st") auto
  obtain e2 s2 where r: "run_tracked x s1 hs = (e2, s2)"
    by (cases "run_tracked x s1 hs") auto
  from "5.prems"(2) have nt: "ident \<notin> set (transformed hs)"
    by auto
  from transformedFiles_buildStart_tracked [OF t] "5.prems"(1)
  have "ident \<notin> transformedFiles s1" by auto
  from "5.IH" [OF t [symmetric] this nt r] "5.prems"(3) t r show ?case
    by auto
qed

lemma tracked_status:
  assumes "endsWith ident ''.tsx''" and "transform_tracked x k src ident = (out, evs, k')"
  shows "statuses evs =
           (if isDevMode k \<and> \<not> isl out
            then [if ident \<in> transformedFiles k then Cached else Fresh] else [])"
    and "transformedFiles k' =
           (if isDevMode k \<and> \<not> isl out
            then insert ident (transformedFiles k) else transformedFiles k)"
  using assms
  by (auto simp: transform_tracked_def transform_tracked_tail_def Let_def result_def
      split: hook_splits)


lemma tracked_after_change_b_run:
  "run_tracked sample_ext (tracked_dev_a\<lparr>transformedFiles := {}\<rparr>)
     [Transform ''<b/>'' ''/src/b.tsx''] =
     ([TransformCall (Transformer 0) (Some \<lparr>roots = [], built_at = 0\<rparr>) ''/src/b.tsx'' ''<b/>'',
       ConsoleLog ''b.tsx'' (Some Fresh)],
      tracked_dev_a\<lparr>transformedFiles := {''/src/b.tsx''}\<rparr>)"
  by (simp add: tracked_dev_a_eq hook_defs)

lemma tracked_after_change_b_a_run:
  "transform_tracked sample_ext (tracked_dev_a\<lparr>transformedFiles := {''/src/b.tsx''}\<rparr>)
     ''<a/>'' ''/src/a.tsx'' =
     (Inr (Some \<lparr>outputCode = ''// roots: ; <a/>'', sourceMap = None\<rparr>),
      [TransformCall (Transformer 0) (Some \<lparr>roots = [], built_at = 0\<rparr>) ''/src/a.tsx'' ''<a/>'',
       ConsoleLog ''a.tsx'' (Some Fresh)],
      tracked_dev_a\<lparr>transformedFiles := {''/src/a.tsx'', ''/src/b.tsx''}\<rparr>)"
  by (simp add: tracked_dev_a_eq hook_defs)

lemma tracked_hot_update_sample:
  "handleHotUpdate_tracked sample_ctx tracked_dev_a =
     (Some (modules sample_ctx),
      [InvalidateModule \<lparr>url = ''/src/a.tsx'', mfile = Some ''/src/a.tsx''\<rparr>],
      tracked_dev_a\<lparr>transformedFiles := {}\<rparr>)"
  by (simp add: handleHotUpdate_tracked_def invalidations_def sample_ctx_def tracked_dev_a_eq)


subsection \<open>Configuration\<close>

lemma shouldCache_configResolved_gated:
  "shouldCache (configResolved_gated cmd g) \<longleftrightarrow> cmd \<noteq> Serve \<or> enableCache g"
  by (simp add: configResolved_gated_def shouldCache_def Let_def)

lemma enableCache_pulsarPlugin_gated:
  "enableCache (pulsarPlugin_gated options) \<longleftrightarrow> opt_enableCache options = Some True"
  by (simp add: pulsarPlugin_gated_def split: option.splits)

lemma configResolved_gated_clears:
  assumes "\<not> shouldCache (configResolved_gated cmd g)"
  shows "cachedTransformer (configResolved_gated cmd g) = None"
    and "cachedProgram (configResolved_gated cmd g) = None"
  using assms by (simp_all add: configResolved_gated_def shouldCache_def Let_def split: if_splits)




subsection \<open>The program a transform hands to the transformer\<close>

lemma gated_fresh_build:
  assumes "endsWith ident ''.tsx''" and "\<not> (shouldCache g \<and> cachedProgram g \<noteq> None)"
    and "transform_gated x g src ident = (out, evs, g')" and "\<not> isl out"
  shows "\<exists>t. transformCalls evs =
           [(t, Some (createProgram [ident] (programsBuilt g)), ident, src)]"
    and "builds evs = [createProgram [ident] (programsBuilt g)]"
  using assms
  by (auto simp: transform_gated_def transform_gated_tail_def Let_def result_def
      split: hook_splits)

lemma temp_fresh_build:
  assumes "endsWith ident ''.tsx''" and "cachedProgram s = None"
    and "transform_temp x s src ident = (out, evs, s')" and "\<not> isl out"
  shows "\<exists>t. transformCalls evs =
           [(t, Some (createProgram [ident] (programsBuilt s)), ident, src)]"
    and "builds evs = [createProgram [ident] (programsBuilt s)]"
  using assms
  by (auto simp: transform_temp_def transform_temp_tail_def Let_def result_def
      split: hook_splits)

lemma tracked_reuses:
  assumes "endsWith ident ''.tsx''"
    and "transform_tracked x k src ident = (out, evs, k')" and "\<not> isl out"
  shows "\<exists>t. transformCalls evs = [(t, cachedProgram k, ident, src)]"
    and "builds evs = []" and "cachedProgram k' = cachedProgram k"
  using assms
  by (auto simp: transform_tracked_def transform_tracked_tail_def Let_def result_def
      split: hook_splits)

lemma cachedProgram_buildStart_tracked:
  "cachedProgram (snd (buildStart_tracked k)) \<noteq> None"
  by (simp add: buildStart_tracked_def Let_def split: option.splits)

text \<open>
  C3. A transform that succeeds without reusing a cached program (gated version: caching
  is off or the program cache is empty; \<^verbatim>\<open>vite-plugin-temp\<close>: the program cache is
  empty) builds one program, from the name of the file being transformed, and runs the
  transformer once, on that program, that file name and that text. The tracked version
  builds no program in a transform: it hands over the cached one, which \<^verbatim>\<open>buildStart\<close>
  has put there, and leaves it in the cache.
\<close>

theorem fresh_build_uses_identity:
  "(endsWith ident ''.tsx'' \<and> \<not> (shouldCache g \<and> cachedProgram g \<noteq> None)
      \<and> transform_gated x g src ident = (out, evs, g') \<and> \<not> isl out
     \<longrightarrow> (\<exists>t. transformCalls evs =
            [(t, Some \<lparr>roots = [ident], built_at = programsBuilt g\<rparr>, ident, src)])
        \<and> builds evs = [\<lparr>roots = [ident], built_at = programsBuilt g\<rparr>])
   \<and> (endsWith ident ''.tsx'' \<and> cachedProgram s = None
      \<and> transform_temp x s src ident = (out', evs', s') \<and> \<not> isl out'
     \<longrightarrow> (\<exists>t. transformCalls evs' =
            [(t, Some \<lparr>roots = [ident], built_at = programsBuilt s\<rparr>, ident, src)])
        \<and> builds evs' = [\<lparr>roots = [ident], built_at = programsBuilt s\<rparr>])
   \<and> (endsWith ident ''.tsx''
      \<and> transform_tracked x k src ident = (out'', evs'', k') \<and> \<not> isl out''
     \<longrightarrow> (\<exists>t. transformCalls evs'' = [(t, cachedProgram k, ident, src)])
        \<and> builds evs'' = [] \<and> cachedProgram k' = cachedProgram k)
   \<and> cachedProgram (snd (buildStart_tracked k)) \<noteq> None"
proof (intro conjI impI)
  assume "endsWith ident ''.tsx'' \<and> \<not> (shouldCache g \<and> cachedProgram g \<noteq> None)
      \<and> transform_gated x g src ident = (out, evs, g') \<and> \<not> isl out"
  then have a: "endsWith ident ''.tsx''" "\<not> (shouldCache g \<and> cachedProgram g \<noteq> None)"
      "transform_gated x g src ident = (out, evs, g')" "\<not> isl out"
    by simp_all
  from gated_fresh_build(1) [OF a]
  show "\<exists>t. transformCalls evs =
      [(t, Some \<lparr>roots = [ident], built_at = programsBuilt g\<rparr>, ident, src)]"
    by (simp add: createProgram_def)
  from gated_fresh_build(2) [OF a]
  show "builds evs = [\<lparr>roots = [ident], built_at = programsBuilt g\<rparr>]"
    by (simp add: createProgram_def)
next
  assume "endsWith ident ''.tsx'' \<and> cachedProgram s = None
      \<and> transform_temp x s src ident = (out', evs', s') \<and> \<not> isl out'"
  then have a: "endsWith ident ''.tsx''" "cachedProgram s = None"
      "transform_temp x s src ident = (out', evs', s')" "\<not> isl out'"
    by simp_all
  from temp_fresh_build(1) [OF a]
  show "\<exists>t. transformCalls evs' =
      [(t, Some \<lparr>roots = [ident], built_at = programsBuilt s\<rparr>, ident, src)]"
    by (simp add: createProgram_def)
  from temp_fresh_build(2) [OF a]
  show "builds evs' = [\<lparr>roots = [ident], built_at = programsBuilt s\<rparr>]"
    by (simp add: createProgram_def)
next
  assume "endsWith ident ''.tsx''
      \<and> transform_tracked x k src ident = (out'', evs'', k') \<and> \<not> isl out''"
  then have a: "endsWith ident ''.tsx''"
      "transform_tracked x k src ident = (out'', evs'', k')" "\<not> isl out''"
    by simp_all
  from tracked_reuses(1) [OF a]
  show "\<exists>t. transformCalls evs'' = [(t, cachedProgram k, ident, src)]" .
  from tracked_reuses(2) [OF a] show "builds evs'' = []" .
  from tracked_reuses(3) [OF a] show "cachedProgram k' = cachedProgram k" .
next
  show "cachedProgram (snd (buildStart_tracked k)) \<noteq> None"
    by (rule cachedProgram_buildStart_tracked)
qed

lemma gated_dev_a_run:
  "transform_gated sample_ext gated_dev ''<a/>'' ''/src/a.tsx'' =
     (Inr (Some \<lparr>outputCode = ''// roots: /src/a.tsx; <a/>'', sourceMap = None\<rparr>),
      [Import, CreateProgram \<lparr>roots = [''/src/a.tsx''], built_at = 0\<rparr>,
       TransformCall (Transformer 0) (Some \<lparr>roots = [''/src/a.tsx''], built_at = 0\<rparr>)
         ''/src/a.tsx'' ''<a/>'',
       ConsoleLog ''a.tsx'' (Some Fresh)],
      gated_dev\<lparr>programsBuilt := Suc 0\<rparr>)"
  by (simp add: gated_dev_eq hook_defs)

lemma temp_a_run:
  "transform_temp sample_ext pulsarPlugin_temp ''<a/>'' ''/src/a.tsx'' =
     (Inr (Some \<lparr>outputCode = ''// roots: /src/a.tsx; <a/>'', sourceMap = None\<rparr>),
      [Import, CreateProgram \<lparr>roots = [''/src/a.tsx''], built_at = 0\<rparr>,
       TransformCall (Transformer 0) (Some \<lparr>roots = [''/src/a.tsx''], built_at = 0\<rparr>)
         ''/src/a.tsx'' ''<a/>'',
       ConsoleLog ''a.tsx'' None],
      \<lparr>cachedTransformer = Some (Transformer 0),
       cachedProgram = Some \<lparr>roots = [''/src/a.tsx''], built_at = 0\<rparr>,
       programsBuilt = Suc 0\<rparr>)"
  by (simp add: hook_defs)

theorem fresh_build_uses_identity_witness:
  "endsWith ''/src/a.tsx'' ''.tsx''
   \<and> \<not> (shouldCache gated_dev \<and> cachedProgram gated_dev \<noteq> None)
   \<and> cachedProgram pulsarPlugin_temp = None
   \<and> \<not> isl (fst (transform_gated sample_ext gated_dev ''<a/>'' ''/src/a.tsx''))
   \<and> \<not> isl (fst (transform_temp sample_ext pulsarPlugin_temp ''<a/>'' ''/src/a.tsx''))
   \<and> \<not> isl (fst (transform_tracked sample_ext tracked_dev ''<a/>'' ''/src/a.tsx''))
   \<and> transformCalls (fst (snd (transform_gated sample_ext gated_dev ''<a/>'' ''/src/a.tsx'')))
       = [(Transformer 0, Some \<lparr>roots = [''/src/a.tsx''], built_at = 0\<rparr>,
           ''/src/a.tsx'', ''<a/>'')]
   \<and> builds (fst (snd (transform_gated sample_ext gated_dev ''<a/>'' ''/src/a.tsx'')))
       = [\<lparr>roots = [''/src/a.tsx''], built_at = 0\<rparr>]
   \<and> transformCalls (fst (snd (transform_temp sample_ext pulsarPlugin_temp ''<a/>'' ''/src/a.tsx'')))
       = [(Transformer 0, Some \<lparr>roots = [''/src/a.tsx''], built_at = 0\<rparr>,
           ''/src/a.tsx'', ''<a/>'')]
   \<and> builds (fst (snd (transform_tracked sample_ext tracked_dev ''<a/>'' ''/src/a.tsx''))) = []"
proof -
  have s: "\<not> shouldCache gated_dev"
    by (simp add: gated_dev_eq shouldCache_def)
  have c: "cachedProgram pulsarPlugin_temp = None"
    by (simp add: pulsarPlugin_temp_def)
  show ?thesis
    using s c fresh_build_uses_identity [of "''/src/a.tsx''" gated_dev sample_ext "''<a/>''"
      "fst (transform_gated sample_ext gated_dev ''<a/>'' ''/src/a.tsx'')"
      "fst (snd (transform_gated sample_ext gated_dev ''<a/>'' ''/src/a.tsx''))"
      "snd (snd (transform_gated sample_ext gated_dev ''<a/>'' ''/src/a.tsx''))"
      pulsarPlugin_temp
      "fst (transform_temp sample_ext pulsarPlugin_temp ''<a/>'' ''/src/a.tsx'')"
      "fst (snd (transform_temp sample_ext pulsarPlugin_temp ''<a/>'' ''/src/a.tsx''))"
      "snd (snd (transform_temp sample_ext pulsarPlugin_temp ''<a/>'' ''/src/a.tsx''))"
      tracked_dev
      "fst (transform_tracked sample_ext tracked_dev ''<a/>'' ''/src/a.tsx'')"
      "fst (snd (transform_tracked sample_ext tracked_dev ''<a/>'' ''/src/a.tsx''))"
      "snd (snd (transform_tracked sample_ext tracked_dev ''<a/>'' ''/src/a.tsx''))"]
    by (simp add: gated_dev_a_run temp_a_run tracked_dev_a_run)
qed

subsection \<open>The program used after a change notification\<close>

lemma usedSince_append [simp]:
  "usedSince n (es @ fs) \<longleftrightarrow> usedSince n es \<and> usedSince n fs"
  by (induction n es rule: usedSince.induct) auto

lemma usedSince_invalidations [simp]: "usedSince n (invalidations ctx)"
  by (simp add: invalidations_def split: option.splits)

lemma builtSince_transform_gated:
  assumes "builtSince n st" and "transform_gated x st src ident = (out, evs, st')"
  shows "builtSince n st' \<and> usedSince n evs"
  using assms
  by (auto simp: builtSince_def transform_gated_def transform_gated_tail_def Let_def
      createProgram_def split: hook_splits)

lemma builtSince_handleHotUpdate_gated:
  assumes "builtSince n st" and "handleHotUpdate_gated ctx st = (ms, evs, st')"
  shows "builtSince n st' \<and> usedSince n evs"
  using assms by (auto simp: builtSince_def handleHotUpdate_gated_def split: hook_splits)

lemma builtSince_configResolved_gated:
  "builtSince n st \<Longrightarrow> builtSince n (configResolved_gated cmd st)"
  by (auto simp: builtSince_def configResolved_gated_def Let_def split: hook_splits)

lemma builtSince_run_gated:
  "builtSince n st \<Longrightarrow> run_gated x st hs = (evs, st')
     \<Longrightarrow> builtSince n st' \<and> usedSince n evs"
proof (induction x st hs arbitrary: evs st' rule: run_gated.induct)
  case (1 x st)
  then show ?case by simp
next
  case (2 x st src ident hs)
  obtain out e1 s1 where t: "transform_gated x st src ident = (out, e1, s1)"
    by (cases "transform_gated x st src ident") auto
  obtain e2 s2 where r: "run_gated x s1 hs = (e2, s2)"
    by (cases "run_gated x s1 hs") auto
  from builtSince_transform_gated [OF "2.prems"(1) t]
  have b1: "builtSince n s1" and u1: "usedSince n e1" by simp_all
  from "2.IH" [OF t [symmetric] refl b1 r] have "builtSince n s2 \<and> usedSince n e2" .
  with u1 "2.prems"(2) t r show ?case by auto
next
  case (3 x st ctx hs)
  obtain ms e1 s1 where t: "handleHotUpdate_gated ctx st = (ms, e1, s1)"
    by (cases "handleHotUpdate_gated ctx st") auto
  obtain e2 s2 where r: "run_gated x s1 hs = (e2, s2)"
    by (cases "run_gated x s1 hs") auto
  from builtSince_handleHotUpdate_gated [OF "3.prems"(1) t]
  have b1: "builtSince n s1" and u1: "usedSince n e1" by simp_all
  from "3.IH" [OF t [symmetric] refl b1 r] have "builtSince n s2 \<and> usedSince n e2" .
  with u1 "3.prems"(2) t r show ?case by auto
next
  case (4 x st cmd hs)
  then show ?case by (simp add: builtSince_configResolved_gated)
next
  case (5 x st hs)
  then show ?case by simp
qed

lemma builtSince_after_hot_update:
  assumes "endsWith (hmr_file ctx) ''.tsx''" and "handleHotUpdate_gated ctx st = (ms, hevs, st1)"
  shows "builtSince (programsBuilt st) st1" and "cachedProgram st1 = None"
    and "programsBuilt st1 = programsBuilt st"
  using assms by (auto simp: builtSince_def handleHotUpdate_gated_def)

text \<open>
  C1, as the code has it. In the gated version, once \<^verbatim>\<open>handleHotUpdate\<close> has run for a
  \<^verbatim>\<open>.tsx\<close> file, every later run of the transformer, whatever hooks are called in
  between, is given a program built after the notification; and a transform that
  follows the notification at once and succeeds builds its program from the name of its
  own file. (The tracked version keeps the program of \<^verbatim>\<open>buildStart\<close>; see the
  counterexample.)
\<close>

theorem gated_rebuilds_after_change:
  assumes "endsWith (hmr_file ctx) ''.tsx''"
    and "handleHotUpdate_gated ctx st = (ms, hevs, st1)"
  shows "(run_gated x st1 hs = (evs, st2) \<longrightarrow> usedSince (programsBuilt st) evs)
       \<and> (endsWith ident ''.tsx'' \<and> transform_gated x st1 src ident = (out, evs', st3)
            \<and> \<not> isl out
          \<longrightarrow> (\<exists>t. transformCalls evs' =
                 [(t, Some \<lparr>roots = [ident], built_at = programsBuilt st\<rparr>, ident, src)])
             \<and> builds evs' = [\<lparr>roots = [ident], built_at = programsBuilt st\<rparr>])"
proof (intro conjI impI)
  assume "run_gated x st1 hs = (evs, st2)"
  with builtSince_run_gated [OF builtSince_after_hot_update(1) [OF assms]]
  show "usedSince (programsBuilt st) evs" by blast
next
  assume "endsWith ident ''.tsx'' \<and> transform_gated x st1 src ident = (out, evs', st3)
      \<and> \<not> isl out"
  then have a: "endsWith ident ''.tsx''" "transform_gated x st1 src ident = (out, evs', st3)"
      "\<not> isl out"
    by simp_all
  have n: "\<not> (shouldCache st1 \<and> cachedProgram st1 \<noteq> None)"
    using builtSince_after_hot_update(2) [OF assms] by simp
  from gated_fresh_build(1) [OF a(1) n a(2) a(3)]
  show "\<exists>t. transformCalls evs' =
      [(t, Some \<lparr>roots = [ident], built_at = programsBuilt st\<rparr>, ident, src)]"
    by (simp add: createProgram_def builtSince_after_hot_update(3) [OF assms])
  from gated_fresh_build(2) [OF a(1) n a(2) a(3)]
  show "builds evs' = [\<lparr>roots = [ident], built_at = programsBuilt st\<rparr>]"
    by (simp add: createProgram_def builtSince_after_hot_update(3) [OF assms])
qed

lemma gated_after_change_run:
  "run_gated sample_ext (gated_dev_cache_x\<lparr>cachedProgram := None\<rparr>)
     [Transform ''<b/>'' ''/src/b.tsx'', Transform ''<a/>'' ''/src/a.tsx''] =
     ([CreateProgram \<lparr>roots = [''/src/b.tsx''], built_at = Suc 0\<rparr>,
       TransformCall (Transformer 0) (Some \<lparr>roots = [''/src/b.tsx''], built_at = Suc 0\<rparr>)
         ''/src/b.tsx'' ''<b/>'',
       ConsoleLog ''b.tsx'' (Some Cached),
       TransformCall (Transformer 0) (Some \<lparr>roots = [''/src/b.tsx''], built_at = Suc 0\<rparr>)
         ''/src/a.tsx'' ''<a/>'',
       ConsoleLog ''a.tsx'' (Some Cached)],
      gated_dev_cache_x\<lparr>cachedProgram := Some \<lparr>roots = [''/src/b.tsx''], built_at = Suc 0\<rparr>,
        programsBuilt := Suc (Suc 0)\<rparr>)"
  by (simp add: gated_dev_cache_x_eq hook_defs)

lemma gated_after_change_a_run:
  "transform_gated sample_ext (gated_dev_cache_x\<lparr>cachedProgram := None\<rparr>) ''<a/>'' ''/src/a.tsx'' =
     (Inr (Some \<lparr>outputCode = ''// roots: /src/a.tsx; <a/>'', sourceMap = None\<rparr>),
      [CreateProgram \<lparr>roots = [''/src/a.tsx''], built_at = Suc 0\<rparr>,
       TransformCall (Transformer 0) (Some \<lparr>roots = [''/src/a.tsx''], built_at = Suc 0\<rparr>)
         ''/src/a.tsx'' ''<a/>'',
       ConsoleLog ''a.tsx'' (Some Cached)],
      gated_dev_cache_x\<lparr>cachedProgram := Some \<lparr>roots = [''/src/a.tsx''], built_at = Suc 0\<rparr>,
        programsBuilt := Suc (Suc 0)\<rparr>)"
  by (simp add: gated_dev_cache_x_eq hook_defs)

lemma gated_hot_update_sample:
  "handleHotUpdate_gated sample_ctx gated_dev_cache_x =
     (Some (modules sample_ctx),
      [InvalidateModule \<lparr>url = ''/src/a.tsx'', mfile = Some ''/src/a.tsx''\<rparr>],
      gated_dev_cache_x\<lparr>cachedProgram := None\<rparr>)"
  by (simp add: handleHotUpdate_gated_def invalidations_def sample_ctx_def)

theorem gated_rebuilds_after_change_witness:
  "endsWith (hmr_file sample_ctx) ''.tsx'' \<and> endsWith ''/src/a.tsx'' ''.tsx''
   \<and> programsBuilt gated_dev_cache_x = 1
   \<and> cachedProgram gated_dev_cache_x = Some \<lparr>roots = [''/src/x.tsx''], built_at = 0\<rparr>
   \<and> usedSince 1 (fst (run_gated sample_ext
         (snd (snd (handleHotUpdate_gated sample_ctx gated_dev_cache_x)))
         [Transform ''<b/>'' ''/src/b.tsx'', Transform ''<a/>'' ''/src/a.tsx'']))
   \<and> transformCalls (fst (run_gated sample_ext
         (snd (snd (handleHotUpdate_gated sample_ctx gated_dev_cache_x)))
         [Transform ''<b/>'' ''/src/b.tsx'', Transform ''<a/>'' ''/src/a.tsx'']))
       = [(Transformer 0, Some \<lparr>roots = [''/src/b.tsx''], built_at = 1\<rparr>, ''/src/b.tsx'', ''<b/>''),
          (Transformer 0, Some \<lparr>roots = [''/src/b.tsx''], built_at = 1\<rparr>, ''/src/a.tsx'', ''<a/>'')]
   \<and> transformCalls (fst (snd (transform_gated sample_ext
         (snd (snd (handleHotUpdate_gated sample_ctx gated_dev_cache_x))) ''<a/>'' ''/src/a.tsx'')))
       = [(Transformer 0, Some \<lparr>roots = [''/src/a.tsx''], built_at = 1\<rparr>, ''/src/a.tsx'', ''<a/>'')]"
proof -
  have e: "endsWith (hmr_file sample_ctx) ''.tsx''"
    by (simp add: sample_ctx_def)
  have p: "programsBuilt gated_dev_cache_x = 1"
      "cachedProgram gated_dev_cache_x = Some \<lparr>roots = [''/src/x.tsx''], built_at = 0\<rparr>"
    by (simp_all add: gated_dev_cache_x_eq)
  show ?thesis
    using e p gated_rebuilds_after_change [OF e gated_hot_update_sample,
        of sample_ext "[Transform ''<b/>'' ''/src/b.tsx'', Transform ''<a/>'' ''/src/a.tsx'']"
        "fst (run_gated sample_ext (gated_dev_cache_x\<lparr>cachedProgram := None\<rparr>)
           [Transform ''<b/>'' ''/src/b.tsx'', Transform ''<a/>'' ''/src/a.tsx''])"
        "snd (run_gated sample_ext (gated_dev_cache_x\<lparr>cachedProgram := None\<rparr>)
           [Transform ''<b/>'' ''/src/b.tsx'', Transform ''<a/>'' ''/src/a.tsx''])"
        "''/src/a.tsx''" "''<a/>''"
        "fst (transform_gated sample_ext (gated_dev_cache_x\<lparr>cachedProgram := None\<rparr>)
           ''<a/>'' ''/src/a.tsx'')"
        "fst (snd (transform_gated sample_ext (gated_dev_cache_x\<lparr>cachedProgram := None\<rparr>)
           ''<a/>'' ''/src/a.tsx''))"
        "snd (snd (transform_gated sample_ext (gated_dev_cache_x\<lparr>cachedProgram := None\<rparr>)
           ''<a/>'' ''/src/a.tsx''))"]
    by (simp add: gated_hot_update_sample gated_after_change_run gated_after_change_a_run
        del: run_gated.simps)
qed

text \<open>
  The claim as it was stated fails in the tracked version. On the dev server, after
  \<^verbatim>\<open>buildStart\<close> and a transform of \<^verbatim>\<open>/src/a.tsx\<close>, one program has been built. A change
  of \<^verbatim>\<open>/src/a.tsx\<close> is notified; the next transform of \<^verbatim>\<open>/src/a.tsx\<close> builds nothing and
  gives the transformer that first program, the one \<^verbatim>\<open>buildStart\<close> built from no file.
\<close>

theorem tracked_reuses_program_after_change:
  "endsWith (hmr_file sample_ctx) ''.tsx'' \<and> hmr_file sample_ctx = ''/src/a.tsx''
   \<and> programsBuilt tracked_dev_a = 1
   \<and> transform_tracked sample_ext
       (snd (snd (handleHotUpdate_tracked sample_ctx tracked_dev_a))) ''<a id=2/>'' ''/src/a.tsx''
     = (Inr (Some \<lparr>outputCode = ''// roots: ; <a id=2/>'', sourceMap = None\<rparr>),
        [TransformCall (Transformer 0) (Some \<lparr>roots = [], built_at = 0\<rparr>)
           ''/src/a.tsx'' ''<a id=2/>'',
         ConsoleLog ''a.tsx'' (Some Fresh)],
        tracked_dev_a)
   \<and> \<not> usedSince (programsBuilt tracked_dev_a)
        (fst (snd (transform_tracked sample_ext
          (snd (snd (handleHotUpdate_tracked sample_ctx tracked_dev_a)))
          ''<a id=2/>'' ''/src/a.tsx'')))"
  by (simp add: tracked_hot_update_sample) (simp add: tracked_dev_a_eq hook_defs)

subsection \<open>The status printed\<close>

lemma tracked_status_observational:
  "fst (transform_tracked x (k\<lparr>transformedFiles := S\<rparr>) src ident)
     = fst (transform_tracked x k src ident)"
  "transformCalls (fst (snd (transform_tracked x (k\<lparr>transformedFiles := S\<rparr>) src ident)))
     = transformCalls (fst (snd (transform_tracked x k src ident)))"
  "builds (fst (snd (transform_tracked x (k\<lparr>transformedFiles := S\<rparr>) src ident)))
     = builds (fst (snd (transform_tracked x k src ident)))"
  "imports_of (fst (snd (transform_tracked x (k\<lparr>transformedFiles := S\<rparr>) src ident)))
     = imports_of (fst (snd (transform_tracked x k src ident)))"
  "cachedTransformer (snd (snd (transform_tracked x (k\<lparr>transformedFiles := S\<rparr>) src ident)))
     = cachedTransformer (snd (snd (transform_tracked x k src ident)))"
  "cachedProgram (snd (snd (transform_tracked x (k\<lparr>transformedFiles := S\<rparr>) src ident)))
     = cachedProgram (snd (snd (transform_tracked x k src ident)))"
  by (auto simp: transform_tracked_def transform_tracked_tail_def Let_def result_def
      split: hook_splits)

lemma gated_status:
  assumes "endsWith ident ''.tsx''" and "transform_gated x g src ident = (out, evs, g')"
  shows "statuses evs =
           (if isDevMode g \<and> \<not> isl out
            then [if shouldCache g then Cached else Fresh] else [])"
  using assms
  by (auto simp: transform_gated_def transform_gated_tail_def Let_def result_def
      shouldCache_def split: hook_splits)

text \<open>
  C5, as the code has it. In the tracked version a transform of a \<^verbatim>\<open>.tsx\<close> file that
  succeeds on the dev server prints \<open>fresh\<close> exactly when the file is not in
  \<^verbatim>\<open>transformedFiles\<close> at the call, \<open>cached\<close> otherwise, and then adds the file; in a
  build, or when it fails, it prints no status and adds nothing. The set has no part in
  the choice of handles: with any other set in its place, the outcome, the runs of the
  transformer, the programs built, the imports and both caches are the same. In the
  gated version a transform that succeeds on the dev server prints \<open>cached\<close> exactly
  when caching is on, whatever was transformed before.
\<close>

theorem status_rules:
  "(endsWith ident ''.tsx'' \<and> transform_tracked x k src ident = (out, evs, k') \<longrightarrow>
      statuses evs =
        (if isDevMode k \<and> \<not> isl out
         then [if ident \<in> transformedFiles k then Cached else Fresh] else [])
    \<and> transformedFiles k' =
        (if isDevMode k \<and> \<not> isl out
         then insert ident (transformedFiles k) else transformedFiles k))
   \<and> fst (transform_tracked x (k\<lparr>transformedFiles := S\<rparr>) src ident)
       = fst (transform_tracked x k src ident)
   \<and> transformCalls (fst (snd (transform_tracked x (k\<lparr>transformedFiles := S\<rparr>) src ident)))
       = transformCalls (fst (snd (transform_tracked x k src ident)))
   \<and> builds (fst (snd (transform_tracked x (k\<lparr>transformedFiles := S\<rparr>) src ident)))
       = builds (fst (snd (transform_tracked x k src ident)))
   \<and> imports_of (fst (snd (transform_tracked x (k\<lparr>transformedFiles := S\<rparr>) src ident)))
       = imports_of (fst (snd (transform_tracked x k src ident)))
   \<and> cachedTransformer (snd (snd (transform_tracked x (k\<lparr>transformedFiles := S\<rparr>) src ident)))
       = cachedTransformer (snd (snd (transform_tracked x k src ident)))
   \<and> cachedProgram (snd (snd (transform_tracked x (k\<lparr>transformedFiles := S\<rparr>) src ident)))
       = cachedProgram (snd (snd (transform_tracked x k src ident)))
   \<and> (endsWith ident ''.tsx'' \<and> transform_gated x g src ident = (out', evs', g') \<longrightarrow>
      statuses evs' =
        (if isDevMode g \<and> \<not> isl out'
         then [if shouldCache g then Cached else Fresh] else []))"
  using tracked_status [of ident x k src out evs k']
    tracked_status_observational [where x = x and k = k and S = S and src = src and ident = ident]
    gated_status [of ident x g src out' evs' g']
  by simp

theorem status_rules_witness:
  "endsWith ''/src/a.tsx'' ''.tsx''
   \<and> ''/src/a.tsx'' \<notin> transformedFiles tracked_dev
   \<and> statuses (fst (snd (transform_tracked sample_ext tracked_dev ''<a/>'' ''/src/a.tsx'')))
       = [Fresh]
   \<and> transformedFiles (snd (snd (transform_tracked sample_ext tracked_dev ''<a/>'' ''/src/a.tsx'')))
       = {''/src/a.tsx''}
   \<and> fst (transform_tracked sample_ext (tracked_dev\<lparr>transformedFiles := {''/src/a.tsx''}\<rparr>)
         ''<a/>'' ''/src/a.tsx'')
       = Inr (Some \<lparr>outputCode = ''// roots: ; <a/>'', sourceMap = None\<rparr>)
   \<and> statuses (fst (snd (transform_gated sample_ext gated_dev ''<a/>'' ''/src/a.tsx'')))
       = [Fresh]"
proof -
  have d: "isDevMode tracked_dev" "transformedFiles tracked_dev = {}"
    by (simp_all add: tracked_dev_eq)
  have g: "isDevMode gated_dev" "\<not> shouldCache gated_dev"
    by (simp_all add: gated_dev_eq shouldCache_def)
  show ?thesis
    using d g status_rules [of "''/src/a.tsx''" sample_ext tracked_dev "''<a/>''"
      "fst (transform_tracked sample_ext tracked_dev ''<a/>'' ''/src/a.tsx'')"
      "fst (snd (transform_tracked sample_ext tracked_dev ''<a/>'' ''/src/a.tsx''))"
      "snd (snd (transform_tracked sample_ext tracked_dev ''<a/>'' ''/src/a.tsx''))"
      "{''/src/a.tsx''}" gated_dev
      "fst (transform_gated sample_ext gated_dev ''<a/>'' ''/src/a.tsx'')"
      "fst (snd (transform_gated sample_ext gated_dev ''<a/>'' ''/src/a.tsx''))"
      "snd (snd (transform_gated sample_ext gated_dev ''<a/>'' ''/src/a.tsx''))"]
    by (simp add: tracked_dev_a_run gated_dev_a_run)
qed

lemma gated_dev_a_again_run:
  "transform_gated sample_ext (gated_dev\<lparr>programsBuilt := Suc 0\<rparr>) ''<a/>'' ''/src/a.tsx'' =
     (Inr (Some \<lparr>outputCode = ''// roots: /src/a.tsx; <a/>'', sourceMap = None\<rparr>),
      [Import, CreateProgram \<lparr>roots = [''/src/a.tsx''], built_at = Suc 0\<rparr>,
       TransformCall (Transformer 0) (Some \<lparr>roots = [''/src/a.tsx''], built_at = Suc 0\<rparr>)
         ''/src/a.tsx'' ''<a/>'',
       ConsoleLog ''a.tsx'' (Some Fresh)],
      gated_dev\<lparr>programsBuilt := Suc (Suc 0)\<rparr>)"
  by (simp add: gated_dev_eq hook_defs)

lemma gated_dev_cache_a_run:
  "transform_gated sample_ext gated_dev_cache ''<a/>'' ''/src/a.tsx'' =
     (Inr (Some \<lparr>outputCode = ''// roots: /src/a.tsx; <a/>'', sourceMap = None\<rparr>),
      [Import, CreateProgram \<lparr>roots = [''/src/a.tsx''], built_at = 0\<rparr>,
       TransformCall (Transformer 0) (Some \<lparr>roots = [''/src/a.tsx''], built_at = 0\<rparr>)
         ''/src/a.tsx'' ''<a/>'',
       ConsoleLog ''a.tsx'' (Some Cached)],
      \<lparr>cachedTransformer = Some (Transformer 0),
       cachedProgram = Some \<lparr>roots = [''/src/a.tsx''], built_at = 0\<rparr>,
       programsBuilt = Suc 0, isDevMode = True, enableCache = True\<rparr>)"
  by (simp add: gated_dev_cache_eq hook_defs)

text \<open>
  The claim as it was stated fails in the gated version, which keeps no set of
  transformed files. On the dev server without \<^verbatim>\<open>enableCache\<close>, the second transform of
  \<^verbatim>\<open>/src/a.tsx\<close> in a row prints \<open>fresh\<close> again; with \<^verbatim>\<open>enableCache\<close>, the first transform
  of the session prints \<open>cached\<close>.
\<close>

theorem gated_status_ignores_history:
  "statuses (fst (snd (transform_gated sample_ext gated_dev ''<a/>'' ''/src/a.tsx''))) = [Fresh]
   \<and> statuses (fst (snd (transform_gated sample_ext
        (snd (snd (transform_gated sample_ext gated_dev ''<a/>'' ''/src/a.tsx'')))
        ''<a/>'' ''/src/a.tsx''))) = [Fresh]
   \<and> gated_dev_cache
       = configResolved_gated Serve (pulsarPlugin_gated \<lparr>opt_enableCache = Some True\<rparr>)
   \<and> statuses (fst (snd (transform_gated sample_ext gated_dev_cache ''<a/>'' ''/src/a.tsx'')))
       = [Cached]"
  by (simp add: gated_dev_a_run gated_dev_a_again_run gated_dev_cache_a_run)
    (simp add: gated_dev_cache_def)

subsection \<open>A change of one file and the transform of another\<close>

lemma tracked_other_file:
  assumes "hmr_file ctx \<noteq> ident"
  shows "fst (transform_tracked x (snd (snd (handleHotUpdate_tracked ctx k))) src ident)
           = fst (transform_tracked x k src ident)"
    and "fst (snd (transform_tracked x (snd (snd (handleHotUpdate_tracked ctx k))) src ident))
           = fst (snd (transform_tracked x k src ident))"
  using assms
  by (auto simp: handleHotUpdate_tracked_def transform_tracked_def transform_tracked_tail_def
      Let_def result_def split: hook_splits)

lemma gated_other_file_no_reuse:
  assumes "\<not> shouldCache g \<or> cachedProgram g = None"
  shows "fst (transform_gated x (snd (snd (handleHotUpdate_gated ctx g))) src ident)
           = fst (transform_gated x g src ident)"
    and "fst (snd (transform_gated x (snd (snd (handleHotUpdate_gated ctx g))) src ident))
           = fst (snd (transform_gated x g src ident))"
  using assms
  by (auto simp: handleHotUpdate_gated_def transform_gated_def transform_gated_tail_def
      Let_def result_def shouldCache_def split: hook_splits)

lemma gated_other_file_status:
  assumes "\<not> isl (fst (transform_gated x (snd (snd (handleHotUpdate_gated ctx g))) src ident))"
    and "\<not> isl (fst (transform_gated x g src ident))"
  shows "statuses (fst (snd (transform_gated x (snd (snd (handleHotUpdate_gated ctx g))) src ident)))
           = statuses (fst (snd (transform_gated x g src ident)))"
  using assms
  by (auto simp: handleHotUpdate_gated_def transform_gated_def transform_gated_tail_def
      Let_def result_def shouldCache_def split: hook_splits)

text \<open>
  C7, as the code has it. In the tracked version a change notification for one file
  changes neither the outcome nor any event (the status among them) of the next
  transform of another file. In the gated version the same holds when caching is off or
  the program cache is empty; and whenever the transform of the other file succeeds
  with and without the notification, the status printed is the same. (With caching on
  and a program cached, the notification makes the other file's transform build a
  program of its own where it would have reused the cached one, and the output is the
  transformer's output on that program: see the counterexample.)
\<close>

theorem hot_update_other_file:
  "(hmr_file ctx \<noteq> ident \<longrightarrow>
      fst (transform_tracked x (snd (snd (handleHotUpdate_tracked ctx k))) src ident)
        = fst (transform_tracked x k src ident)
    \<and> fst (snd (transform_tracked x (snd (snd (handleHotUpdate_tracked ctx k))) src ident))
        = fst (snd (transform_tracked x k src ident)))
   \<and> (\<not> shouldCache g \<or> cachedProgram g = None \<longrightarrow>
      fst (transform_gated x (snd (snd (handleHotUpdate_gated ctx g))) src ident)
        = fst (transform_gated x g src ident)
    \<and> fst (snd (transform_gated x (snd (snd (handleHotUpdate_gated ctx g))) src ident))
        = fst (snd (transform_gated x g src ident)))
   \<and> (\<not> isl (fst (transform_gated x (snd (snd (handleHotUpdate_gated ctx g))) src ident))
      \<and> \<not> isl (fst (transform_gated x g src ident)) \<longrightarrow>
      statuses (fst (snd (transform_gated x (snd (snd (handleHotUpdate_gated ctx g))) src ident)))
        = statuses (fst (snd (transform_gated x g src ident))))"
  using tracked_other_file [of ctx ident x k src]
    gated_other_file_no_reuse [of g x ctx src ident]
    gated_other_file_status [of x ctx g src ident]
  by blast

lemma tracked_dev_a_b_run:
  "transform_tracked sample_ext tracked_dev_a ''<b/>'' ''/src/b.tsx'' =
     (Inr (Some \<lparr>outputCode = ''// roots: ; <b/>'', sourceMap = None\<rparr>),
      [TransformCall (Transformer 0) (Some \<lparr>roots = [], built_at = 0\<rparr>) ''/src/b.tsx'' ''<b/>'',
       ConsoleLog ''b.tsx'' (Some Fresh)],
      tracked_dev_a\<lparr>transformedFiles := {''/src/b.tsx'', ''/src/a.tsx''}\<rparr>)"
  by (simp add: tracked_dev_a_eq hook_defs)

lemma gated_dev_b_run:
  "transform_gated sample_ext gated_dev ''<b/>'' ''/src/b.tsx'' =
     (Inr (Some \<lparr>outputCode = ''// roots: /src/b.tsx; <b/>'', sourceMap = None\<rparr>),
      [Import, CreateProgram \<lparr>roots = [''/src/b.tsx''], built_at = 0\<rparr>,
       TransformCall (Transformer 0) (Some \<lparr>roots = [''/src/b.tsx''], built_at = 0\<rparr>)
         ''/src/b.tsx'' ''<b/>'',
       ConsoleLog ''b.tsx'' (Some Fresh)],
      gated_dev\<lparr>programsBuilt := Suc 0\<rparr>)"
  by (simp add: gated_dev_eq hook_defs)

theorem hot_update_other_file_witness:
  "hmr_file sample_ctx \<noteq> ''/src/b.tsx''
   \<and> \<not> shouldCache gated_dev
   \<and> transform_tracked sample_ext tracked_dev_a ''<b/>'' ''/src/b.tsx''
       = (Inr (Some \<lparr>outputCode = ''// roots: ; <b/>'', sourceMap = None\<rparr>),
          [TransformCall (Transformer 0) (Some \<lparr>roots = [], built_at = 0\<rparr>)
             ''/src/b.tsx'' ''<b/>'',
           ConsoleLog ''b.tsx'' (Some Fresh)],
          tracked_dev_a\<lparr>transformedFiles := {''/src/b.tsx'', ''/src/a.tsx''}\<rparr>)
   \<and> fst (transform_tracked sample_ext
         (snd (snd (handleHotUpdate_tracked sample_ctx tracked_dev_a))) ''<b/>'' ''/src/b.tsx'')
       = Inr (Some \<lparr>outputCode = ''// roots: ; <b/>'', sourceMap = None\<rparr>)
   \<and> statuses (fst (snd (transform_tracked sample_ext
         (snd (snd (handleHotUpdate_tracked sample_ctx tracked_dev_a))) ''<b/>'' ''/src/b.tsx'')))
       = [Fresh]
   \<and> fst (transform_gated sample_ext
         (snd (snd (handleHotUpdate_gated sample_ctx gated_dev))) ''<b/>'' ''/src/b.tsx'')
       = Inr (Some \<lparr>outputCode = ''// roots: /src/b.tsx; <b/>'', sourceMap = None\<rparr>)
   \<and> statuses (fst (snd (transform_gated sample_ext
         (snd (snd (handleHotUpdate_gated sample_ctx gated_dev))) ''<b/>'' ''/src/b.tsx'')))
       = [Fresh]"
proof -
  have f: "hmr_file sample_ctx \<noteq> ''/src/b.tsx''"
    by (simp add: sample_ctx_def)
  have g: "\<not> shouldCache gated_dev"
    by (simp add: gated_dev_eq shouldCache_def)
  show ?thesis
    using f g hot_update_other_file [of sample_ctx "''/src/b.tsx''" sample_ext tracked_dev_a
      "''<b/>''" gated_dev]
    by (simp add: tracked_dev_a_b_run gated_dev_b_run)
qed

lemma gated_dev_cache_x_b_run:
  "transform_gated sample_ext gated_dev_cache_x ''<b/>'' ''/src/b.tsx'' =
     (Inr (Some \<lparr>outputCode = ''// roots: /src/x.tsx; <b/>'', sourceMap = None\<rparr>),
      [TransformCall (Transformer 0) (Some \<lparr>roots = [''/src/x.tsx''], built_at = 0\<rparr>)
         ''/src/b.tsx'' ''<b/>'',
       ConsoleLog ''b.tsx'' (Some Cached)],
      gated_dev_cache_x)"
  by (simp add: gated_dev_cache_x_eq hook_defs)

lemma gated_after_change_b_run:
  "transform_gated sample_ext (gated_dev_cache_x\<lparr>cachedProgram := None\<rparr>) ''<b/>'' ''/src/b.tsx'' =
     (Inr (Some \<lparr>outputCode = ''// roots: /src/b.tsx; <b/>'', sourceMap = None\<rparr>),
      [CreateProgram \<lparr>roots = [''/src/b.tsx''], built_at = Suc 0\<rparr>,
       TransformCall (Transformer 0) (Some \<lparr>roots = [''/src/b.tsx''], built_at = Suc 0\<rparr>)
         ''/src/b.tsx'' ''<b/>'',
       ConsoleLog ''b.tsx'' (Some Cached)],
      gated_dev_cache_x\<lparr>cachedProgram := Some \<lparr>roots = [''/src/b.tsx''], built_at = Suc 0\<rparr>,
        programsBuilt := Suc (Suc 0)\<rparr>)"
  by (simp add: gated_dev_cache_x_eq hook_defs)

text \<open>
  The claim as it was stated fails in the gated version. The dev server runs with
  \<^verbatim>\<open>enableCache\<close> and has transformed \<^verbatim>\<open>/src/x.tsx\<close>, so the program built for that file
  is cached. Without a notification, the transform of \<^verbatim>\<open>/src/b.tsx\<close> reuses that
  program. After a change of \<^verbatim>\<open>/src/a.tsx\<close> is notified, the transform of the same
  \<^verbatim>\<open>/src/b.tsx\<close>, with the same text, builds a program from \<^verbatim>\<open>/src/b.tsx\<close>; a transform
  step that reads the root files of its program prints another text.
\<close>

theorem gated_change_alters_other_output:
  "hmr_file sample_ctx = ''/src/a.tsx''
   \<and> gated_dev_cache_x
       = snd (snd (transform_gated sample_ext
           (configResolved_gated Serve (pulsarPlugin_gated \<lparr>opt_enableCache = Some True\<rparr>))
           ''<x/>'' ''/src/x.tsx''))
   \<and> fst (transform_gated sample_ext gated_dev_cache_x ''<b/>'' ''/src/b.tsx'')
       = Inr (Some \<lparr>outputCode = ''// roots: /src/x.tsx; <b/>'', sourceMap = None\<rparr>)
   \<and> transformCalls (fst (snd (transform_gated sample_ext gated_dev_cache_x ''<b/>'' ''/src/b.tsx'')))
       = [(Transformer 0, Some \<lparr>roots = [''/src/x.tsx''], built_at = 0\<rparr>, ''/src/b.tsx'', ''<b/>'')]
   \<and> fst (transform_gated sample_ext
         (snd (snd (handleHotUpdate_gated sample_ctx gated_dev_cache_x))) ''<b/>'' ''/src/b.tsx'')
       = Inr (Some \<lparr>outputCode = ''// roots: /src/b.tsx; <b/>'', sourceMap = None\<rparr>)
   \<and> transformCalls (fst (snd (transform_gated sample_ext
         (snd (snd (handleHotUpdate_gated sample_ctx gated_dev_cache_x))) ''<b/>'' ''/src/b.tsx'')))
       = [(Transformer 0, Some \<lparr>roots = [''/src/b.tsx''], built_at = 1\<rparr>, ''/src/b.tsx'', ''<b/>'')]
   \<and> fst (transform_gated sample_ext gated_dev_cache_x ''<b/>'' ''/src/b.tsx'')
       \<noteq> fst (transform_gated sample_ext
         (snd (snd (handleHotUpdate_gated sample_ctx gated_dev_cache_x))) ''<b/>'' ''/src/b.tsx'')"
  by (simp add: gated_hot_update_sample gated_dev_cache_x_b_run gated_after_change_b_run)
    (simp add: sample_ctx_def gated_dev_cache_x_def gated_dev_cache_def)

subsection \<open>Transforms without caching\<close>

lemma gated_nocache_state:
  assumes "\<not> shouldCache g" and "transform_gated x g src ident = (out, evs, g')"
  shows "g' = g\<lparr>programsBuilt := programsBuilt g'\<rparr>"
  using assms
  by (auto simp: transform_gated_def transform_gated_tail_def Let_def result_def
      split: hook_splits)

lemma shouldCache_programsBuilt [simp]:
  "shouldCache (g\<lparr>programsBuilt := n\<rparr>) = shouldCache g"
  by (simp add: shouldCache_def)

lemma gated_counter_irrelevant:
  "fst (transform_gated x (g\<lparr>programsBuilt := n\<rparr>) src ident) = fst (transform_gated x g src ident)"
  "statuses (fst (snd (transform_gated x (g\<lparr>programsBuilt := n\<rparr>) src ident)))
     = statuses (fst (snd (transform_gated x g src ident)))"
  by (auto simp: transform_gated_def transform_gated_tail_def Let_def result_def
      createProgram_def shouldCache_def split: hook_splits)

text \<open>
  C8. In the gated version with caching off, two transforms of the same text and file
  in a row have the same outcome (the same output text when they succeed), and after
  them a transform of any other file has the outcome and prints the status it would
  have had without them: the only variable they write is the count of programs built.
\<close>

theorem no_cache_idempotent:
  assumes "\<not> shouldCache g"
    and "transform_gated x g src ident = (out1, evs1, g1)"
    and "transform_gated x g1 src ident = (out2, evs2, g2)"
  shows "out1 = out2
       \<and> g2 = g\<lparr>programsBuilt := programsBuilt g2\<rparr>
       \<and> fst (transform_gated x g2 src3 ident3) = fst (transform_gated x g src3 ident3)
       \<and> statuses (fst (snd (transform_gated x g2 src3 ident3)))
           = statuses (fst (snd (transform_gated x g src3 ident3)))"
proof -
  from gated_nocache_state [OF assms(1) assms(2)]
  have g1: "g1 = g\<lparr>programsBuilt := programsBuilt g1\<rparr>" .
  then have n1: "\<not> shouldCache g1"
    using assms(1) by (metis shouldCache_programsBuilt)
  from gated_nocache_state [OF n1 assms(3)]
  have "g2 = g1\<lparr>programsBuilt := programsBuilt g2\<rparr>" .
  with g1 have g2: "g2 = g\<lparr>programsBuilt := programsBuilt g2\<rparr>"
    by (metis gated_state.surjective gated_state.update_convs(1) temp_state.update_convs(3)
        temp_state.select_convs)
  have "out2 = fst (transform_gated x g1 src ident)"
    using assms(3) by simp
  also have "\<dots> = fst (transform_gated x g src ident)"
    using g1 gated_counter_irrelevant(1) by metis
  also have "\<dots> = out1"
    using assms(2) by simp
  finally have o: "out1 = out2" by simp
  have a: "fst (transform_gated x g2 src3 ident3) = fst (transform_gated x g src3 ident3)"
    using g2 gated_counter_irrelevant(1) by metis
  have b: "statuses (fst (snd (transform_gated x g2 src3 ident3)))
      = statuses (fst (snd (transform_gated x g src3 ident3)))"
    using g2 gated_counter_irrelevant(2) by metis
  from o g2 a b show ?thesis by blast
qed

theorem no_cache_idempotent_witness:
  "\<not> shouldCache gated_dev
   \<and> transform_gated sample_ext gated_dev ''<a/>'' ''/src/a.tsx''
       = (Inr (Some \<lparr>outputCode = ''// roots: /src/a.tsx; <a/>'', sourceMap = None\<rparr>),
          [Import, CreateProgram \<lparr>roots = [''/src/a.tsx''], built_at = 0\<rparr>,
           TransformCall (Transformer 0) (Some \<lparr>roots = [''/src/a.tsx''], built_at = 0\<rparr>)
             ''/src/a.tsx'' ''<a/>'',
           ConsoleLog ''a.tsx'' (Some Fresh)],
          gated_dev\<lparr>programsBuilt := Suc 0\<rparr>)
   \<and> transform_gated sample_ext (gated_dev\<lparr>programsBuilt := Suc 0\<rparr>) ''<a/>'' ''/src/a.tsx''
       = (Inr (Some \<lparr>outputCode = ''// roots: /src/a.tsx; <a/>'', sourceMap = None\<rparr>),
          [Import, CreateProgram \<lparr>roots = [''/src/a.tsx''], built_at = Suc 0\<rparr>,
           TransformCall (Transformer 0) (Some \<lparr>roots = [''/src/a.tsx''], built_at = Suc 0\<rparr>)
             ''/src/a.tsx'' ''<a/>'',
           ConsoleLog ''a.tsx'' (Some Fresh)],
          gated_dev\<lparr>programsBuilt := Suc (Suc 0)\<rparr>)
   \<and> fst (transform_gated sample_ext (gated_dev\<lparr>programsBuilt := Suc (Suc 0)\<rparr>)
         ''<b/>'' ''/src/b.tsx'')
       = Inr (Some \<lparr>outputCode = ''// roots: /src/b.tsx; <b/>'', sourceMap = None\<rparr>)
   \<and> statuses (fst (snd (transform_gated sample_ext (gated_dev\<lparr>programsBuilt := Suc (Suc 0)\<rparr>)
         ''<b/>'' ''/src/b.tsx'')))
       = [Fresh]"
proof -
  have g: "\<not> shouldCache gated_dev"
    by (simp add: gated_dev_eq shouldCache_def)
  from no_cache_idempotent [OF g gated_dev_a_run gated_dev_a_again_run,
      of "''<b/>''" "''/src/b.tsx''"]
  show ?thesis
    using g by (simp add: gated_dev_a_run gated_dev_a_again_run gated_dev_b_run)
qed

subsection \<open>Transforms that begin together\<close>

lemma imports_of_append [simp]: "imports_of (es @ fs) = imports_of es + imports_of fs"
  by (induction es rule: imports_of.induct) auto

lemma transformCalls_append [simp]:
  "transformCalls (es @ fs) = transformCalls es @ transformCalls fs"
  by (induction es rule: transformCalls.induct) auto

lemma imports_of_replicate [simp]: "imports_of (replicate n Import) = n"
  by (induction n) auto

lemma transformCalls_replicate [simp]: "transformCalls (replicate n Import) = []"
  by (induction n) auto

text \<open>The two parts of a call, run one after the other, are the transform.\<close>

lemma transform_tracked_split:
  "transform_tracked x st src ident =
     (case transform_tracked_start x st src ident of
        (Some out, evs, st') \<Rightarrow> (out, evs, st')
      | (None, evs, st') \<Rightarrow>
          (case transform_tracked_resume x st' src ident of
             (out, evs', st'') \<Rightarrow> (out, evs @ evs', st'')))"
  by (auto simp: transform_tracked_def transform_tracked_start_def transform_tracked_resume_def
      split: hook_splits)

lemma transform_gated_split:
  "transform_gated x st src ident =
     (case transform_gated_start x st src ident of
        (Some out, evs, st') \<Rightarrow> (out, evs, st')
      | (None, evs, st') \<Rightarrow>
          (case transform_gated_resume x st' src ident of
             (out, evs', st'') \<Rightarrow> (out, evs @ evs', st'')))"
  by (auto simp: transform_gated_def transform_gated_start_def transform_gated_resume_def
      split: hook_splits)

lemma tracked_start_suspends:
  "cachedTransformer st = None \<Longrightarrow> endsWith ident ''.tsx''
     \<Longrightarrow> transform_tracked_start x st src ident = (None, [Import], st)"
  by (simp add: transform_tracked_start_def)

lemma gated_start_suspends:
  "cachedTransformer st = None \<Longrightarrow> endsWith ident ''.tsx''
     \<Longrightarrow> transform_gated_start x st src ident = (None, [Import], st)"
  by (simp add: transform_gated_start_def split: bool.splits)

lemma startAll_suspended:
  assumes "\<forall>c\<in>set cs. start st (fst c) (snd c) = (None, [Import], st)"
  shows "startAll start st cs = (map (\<lambda>c. (c, None)) cs, replicate (length cs) Import, st)"
  using assms by (induction cs) auto

lemma tracked_resume_calls:
  assumes "importTransformer x = Inr t"
    and "transform_tracked_resume x st src ident = (out, evs, st')"
  shows "imports_of evs = 0 \<and> map fst (transformCalls evs) = [t]"
  using assms
  by (auto simp: transform_tracked_resume_def transform_tracked_tail_def Let_def
      split: hook_splits)

lemma gated_resume_calls:
  assumes "importTransformer x = Inr t"
    and "transform_gated_resume x st src ident = (out, evs, st')"
  shows "imports_of evs = 0 \<and> map fst (transformCalls evs) = [t]"
  using assms
  by (auto simp: transform_gated_resume_def transform_gated_tail_def Let_def
      split: hook_splits)

lemma resumeAll_suspended:
  assumes "\<And>st src ident out evs st'. resume st src ident = (out, evs, st')
      \<Longrightarrow> imports_of evs = 0 \<and> map fst (transformCalls evs) = [t]"
    and "resumeAll resume st (map (\<lambda>c. (c, None)) cs) = (outs, evs, st')"
  shows "imports_of evs = 0 \<and> map fst (transformCalls evs) = replicate (length cs) t
       \<and> length outs = length cs"
  using assms(2)
proof (induction cs arbitrary: st outs evs st')
  case Nil
  then show ?case by simp
next
  case (Cons c cs)
  obtain src ident where c: "c = (src, ident)"
    by (cases c) auto
  obtain out e1 s1 where r: "resume st src ident = (out, e1, s1)"
    by (cases "resume st src ident") auto
  obtain outs' e2 s2 where rs: "resumeAll resume s1 (map (\<lambda>c. (c, None)) cs) = (outs', e2, s2)"
    by (cases "resumeAll resume s1 (map (\<lambda>c. (c, None)) cs)") auto
  from Cons.prems c r rs have e: "evs = e1 @ e2" and o: "outs = out # outs'"
    by auto
  from assms(1) [OF r] Cons.IH [OF rs] e o show ?case
    by simp
qed

lemma resumeAll_suspended_imports:
  assumes "\<And>st src ident out evs st'. resume st src ident = (out, evs, st')
      \<Longrightarrow> imports_of evs = 0"
    and "resumeAll resume st (map (\<lambda>c. (c, None)) cs) = (outs, evs, st')"
  shows "imports_of evs = 0 \<and> length outs = length cs"
  using assms(2)
proof (induction cs arbitrary: st outs evs st')
  case Nil
  then show ?case by simp
next
  case (Cons c cs)
  obtain src ident where c: "c = (src, ident)"
    by (cases c) auto
  obtain out e1 s1 where r: "resume st src ident = (out, e1, s1)"
    by (cases "resume st src ident") auto
  obtain outs' e2 s2 where rs: "resumeAll resume s1 (map (\<lambda>c. (c, None)) cs) = (outs', e2, s2)"
    by (cases "resumeAll resume s1 (map (\<lambda>c. (c, None)) cs)") auto
  from Cons.prems c r rs have e: "evs = e1 @ e2" and o: "outs = out # outs'"
    by auto
  from assms(1) [OF r] Cons.IH [OF rs] e o show ?case
    by simp
qed

lemma tracked_resume_no_imports:
  "transform_tracked_resume x st src ident = (out, evs, st') \<Longrightarrow> imports_of evs = 0"
  by (auto simp: transform_tracked_resume_def transform_tracked_tail_def Let_def
      split: hook_splits)

lemma gated_resume_no_imports:
  "transform_gated_resume x st src ident = (out, evs, st') \<Longrightarrow> imports_of evs = 0"
  by (auto simp: transform_gated_resume_def transform_gated_tail_def Let_def
      split: hook_splits)

lemma concurrent_tracked_loads:
  assumes "\<forall>c\<in>set cs. endsWith (snd c) ''.tsx''" and "cachedTransformer k = None"
    and "concurrent (transform_tracked_start x) (transform_tracked_resume x) k cs = (outs, evs, k')"
  shows "imports_of evs = length cs" and "length outs = length cs"
    and "importTransformer x = Inr t \<Longrightarrow> map fst (transformCalls evs) = replicate (length cs) t"
proof -
  have s: "startAll (transform_tracked_start x) k cs
      = (map (\<lambda>c. (c, None)) cs, replicate (length cs) Import, k)"
    using assms(1,2) by (intro startAll_suspended) (simp add: tracked_start_suspends)
  obtain e2 where r: "resumeAll (transform_tracked_resume x) k (map (\<lambda>c. (c, None)) cs)
      = (outs, e2, k')" and e: "evs = replicate (length cs) Import @ e2"
    using assms(3) s by (auto simp: concurrent_def split: prod.splits)
  from resumeAll_suspended_imports [OF tracked_resume_no_imports r] e
  show "imports_of evs = length cs" and "length outs = length cs" by simp_all
  assume t: "importTransformer x = Inr t"
  from resumeAll_suspended [OF tracked_resume_calls [OF t] r] e
  show "map fst (transformCalls evs) = replicate (length cs) t" by simp
qed

lemma concurrent_gated_loads:
  assumes "\<forall>c\<in>set cs. endsWith (snd c) ''.tsx''" and "cachedTransformer g = None"
    and "concurrent (transform_gated_start x) (transform_gated_resume x) g cs = (outs, evs, g')"
  shows "imports_of evs = length cs" and "length outs = length cs"
    and "importTransformer x = Inr t \<Longrightarrow> map fst (transformCalls evs) = replicate (length cs) t"
proof -
  have s: "startAll (transform_gated_start x) g cs
      = (map (\<lambda>c. (c, None)) cs, replicate (length cs) Import, g)"
    using assms(1,2) by (intro startAll_suspended) (simp add: gated_start_suspends)
  obtain e2 where r: "resumeAll (transform_gated_resume x) g (map (\<lambda>c. (c, None)) cs)
      = (outs, e2, g')" and e: "evs = replicate (length cs) Import @ e2"
    using assms(3) s by (auto simp: concurrent_def split: prod.splits)
  from resumeAll_suspended_imports [OF gated_resume_no_imports r] e
  show "imports_of evs = length cs" and "length outs = length cs" by simp_all
  assume t: "importTransformer x = Inr t"
  from resumeAll_suspended [OF gated_resume_calls [OF t] r] e
  show "map fst (transformCalls evs) = replicate (length cs) t" by simp
qed

text \<open>
  C9, as the code has it. When the transformer cache is empty and transforms of
  \<^verbatim>\<open>.tsx\<close> files begin together (each reaches its \<^verbatim>\<open>await\<close> before any import has
  settled), every call makes its own dynamic import: as many imports as calls, in the
  tracked and in the gated version. Every call completes, and when the import resolves
  each call runs the transformer once, with the handle the import gave.
\<close>

theorem concurrent_loads:
  assumes "\<forall>c\<in>set cs. endsWith (snd c) ''.tsx''"
  shows "(cachedTransformer k = None
          \<and> concurrent (transform_tracked_start x) (transform_tracked_resume x) k cs
              = (outs, evs, k')
         \<longrightarrow> imports_of evs = length cs \<and> length outs = length cs
           \<and> (importTransformer x = Inr t
                \<longrightarrow> map fst (transformCalls evs) = replicate (length cs) t))
       \<and> (cachedTransformer g = None
          \<and> concurrent (transform_gated_start x) (transform_gated_resume x) g cs
              = (outs', evs', g')
         \<longrightarrow> imports_of evs' = length cs \<and> length outs' = length cs
           \<and> (importTransformer x = Inr t
                \<longrightarrow> map fst (transformCalls evs') = replicate (length cs) t))"
proof (intro conjI impI)
  assume "cachedTransformer k = None
      \<and> concurrent (transform_tracked_start x) (transform_tracked_resume x) k cs = (outs, evs, k')"
  then have c: "cachedTransformer k = None"
      "concurrent (transform_tracked_start x) (transform_tracked_resume x) k cs = (outs, evs, k')"
    by simp_all
  from concurrent_tracked_loads(1) [OF assms c] show "imports_of evs = length cs" .
  from concurrent_tracked_loads(2) [OF assms c] show "length outs = length cs" .
  assume "importTransformer x = Inr t"
  with concurrent_tracked_loads(3) [OF assms c]
  show "map fst (transformCalls evs) = replicate (length cs) t" .
next
  assume "cachedTransformer g = None
      \<and> concurrent (transform_gated_start x) (transform_gated_resume x) g cs = (outs', evs', g')"
  then have c: "cachedTransformer g = None"
      "concurrent (transform_gated_start x) (transform_gated_resume x) g cs = (outs', evs', g')"
    by simp_all
  from concurrent_gated_loads(1) [OF assms c] show "imports_of evs' = length cs" .
  from concurrent_gated_loads(2) [OF assms c] show "length outs' = length cs" .
  assume "importTransformer x = Inr t"
  with concurrent_gated_loads(3) [OF assms c]
  show "map fst (transformCalls evs') = replicate (length cs) t" .
qed

lemma concurrent_tracked_sample:
  "concurrent (transform_tracked_start sample_ext) (transform_tracked_resume sample_ext)
     tracked_dev [(''<a/>'', ''/src/a.tsx''), (''<b/>'', ''/src/b.tsx'')] =
     ([Inr (Some \<lparr>outputCode = ''// roots: ; <a/>'', sourceMap = None\<rparr>),
       Inr (Some \<lparr>outputCode = ''// roots: ; <b/>'', sourceMap = None\<rparr>)],
      [Import, Import,
       TransformCall (Transformer 0) (Some \<lparr>roots = [], built_at = 0\<rparr>) ''/src/a.tsx'' ''<a/>'',
       ConsoleLog ''a.tsx'' (Some Fresh),
       TransformCall (Transformer 0) (Some \<lparr>roots = [], built_at = 0\<rparr>) ''/src/b.tsx'' ''<b/>'',
       ConsoleLog ''b.tsx'' (Some Fresh)],
      \<lparr>cachedTransformer = Some (Transformer 0),
       cachedProgram = Some \<lparr>roots = [], built_at = 0\<rparr>,
       programsBuilt = Suc 0, isDevMode = True, enableCache = False,
       transformedFiles = {''/src/b.tsx'', ''/src/a.tsx''}\<rparr>)"
  by (simp add: concurrent_def transform_tracked_start_def transform_tracked_resume_def
      tracked_dev_eq hook_defs)

lemma concurrent_gated_sample:
  "concurrent (transform_gated_start sample_ext) (transform_gated_resume sample_ext)
     gated_dev_cache [(''<a/>'', ''/src/a.tsx''), (''<b/>'', ''/src/b.tsx'')] =
     ([Inr (Some \<lparr>outputCode = ''// roots: /src/a.tsx; <a/>'', sourceMap = None\<rparr>),
       Inr (Some \<lparr>outputCode = ''// roots: /src/a.tsx; <b/>'', sourceMap = None\<rparr>)],
      [Import, Import,
       CreateProgram \<lparr>roots = [''/src/a.tsx''], built_at = 0\<rparr>,
       TransformCall (Transformer 0) (Some \<lparr>roots = [''/src/a.tsx''], built_at = 0\<rparr>)
         ''/src/a.tsx'' ''<a/>'',
       ConsoleLog ''a.tsx'' (Some Cached),
       TransformCall (Transformer 0) (Some \<lparr>roots = [''/src/a.tsx''], built_at = 0\<rparr>)
         ''/src/b.tsx'' ''<b/>'',
       ConsoleLog ''b.tsx'' (Some Cached)],
      \<lparr>cachedTransformer = Some (Transformer 0),
       cachedProgram = Some \<lparr>roots = [''/src/a.tsx''], built_at = 0\<rparr>,
       programsBuilt = Suc 0, isDevMode = True, enableCache = True\<rparr>)"
  by (simp add: concurrent_def transform_gated_start_def transform_gated_resume_def
      gated_dev_cache_eq hook_defs)

theorem concurrent_loads_witness:
  "endsWith ''/src/a.tsx'' ''.tsx'' \<and> endsWith ''/src/b.tsx'' ''.tsx''
   \<and> cachedTransformer tracked_dev = None \<and> cachedTransformer gated_dev_cache = None
   \<and> importTransformer sample_ext = Inr (Transformer 0)
   \<and> imports_of (fst (snd (concurrent
         (transform_tracked_start sample_ext) (transform_tracked_resume sample_ext)
         tracked_dev [(''<a/>'', ''/src/a.tsx''), (''<b/>'', ''/src/b.tsx'')]))) = 2
   \<and> map fst (transformCalls (fst (snd (concurrent
         (transform_tracked_start sample_ext) (transform_tracked_resume sample_ext)
         tracked_dev [(''<a/>'', ''/src/a.tsx''), (''<b/>'', ''/src/b.tsx'')]))))
       = [Transformer 0, Transformer 0]
   \<and> imports_of (fst (snd (concurrent
         (transform_gated_start sample_ext) (transform_gated_resume sample_ext)
         gated_dev_cache [(''<a/>'', ''/src/a.tsx''), (''<b/>'', ''/src/b.tsx'')]))) = 2
   \<and> map fst (transformCalls (fst (snd (concurrent
         (transform_gated_start sample_ext) (transform_gated_resume sample_ext)
         gated_dev_cache [(''<a/>'', ''/src/a.tsx''), (''<b/>'', ''/src/b.tsx'')]))))
       = [Transformer 0, Transformer 0]"
proof -
  have a: "\<forall>c\<in>set [(''<a/>'', ''/src/a.tsx''), (''<b/>'', ''/src/b.tsx'')]. endsWith (snd c) ''.tsx''"
    by simp
  have k: "cachedTransformer tracked_dev = None"
    by (simp add: tracked_dev_eq)
  have g: "cachedTransformer gated_dev_cache = None"
    by (simp add: gated_dev_cache_eq)
  have t: "importTransformer sample_ext = Inr (Transformer 0)"
    by (simp add: sample_ext_def)
  let ?ct = "concurrent (transform_tracked_start sample_ext) (transform_tracked_resume sample_ext)
      tracked_dev [(''<a/>'', ''/src/a.tsx''), (''<b/>'', ''/src/b.tsx'')]"
  let ?cg = "concurrent (transform_gated_start sample_ext) (transform_gated_resume sample_ext)
      gated_dev_cache [(''<a/>'', ''/src/a.tsx''), (''<b/>'', ''/src/b.tsx'')]"
  from concurrent_loads [OF a, where k = tracked_dev and x = sample_ext
      and outs = "fst ?ct" and evs = "fst (snd ?ct)" and k' = "snd (snd ?ct)"
      and t = "Transformer 0" and g = gated_dev_cache
      and outs' = "fst ?cg" and evs' = "fst (snd ?cg)" and g' = "snd (snd ?cg)"]
  show ?thesis
    using k g t by (simp add: concurrent_tracked_sample concurrent_gated_sample)
qed

text \<open>
  The claim as it was stated fails: no call waits for the import of another. On the dev
  server, after \<^verbatim>\<open>buildStart\<close> and with the transformer cache empty, the transforms of
  \<^verbatim>\<open>/src/a.tsx\<close> and \<^verbatim>\<open>/src/b.tsx\<close> begin together and the module is imported twice.
\<close>

theorem two_calls_two_imports:
  "cachedTransformer tracked_dev = None
   \<and> imports_of (fst (snd (concurrent
         (transform_tracked_start sample_ext) (transform_tracked_resume sample_ext)
         tracked_dev [(''<a/>'', ''/src/a.tsx''), (''<b/>'', ''/src/b.tsx'')]))) = 2
   \<and> imports_of (fst (snd (concurrent
         (transform_tracked_start sample_ext) (transform_tracked_resume sample_ext)
         tracked_dev [(''<a/>'', ''/src/a.tsx''), (''<b/>'', ''/src/b.tsx'')]))) \<noteq> 1"
  by (simp add: concurrent_tracked_sample) (simp add: tracked_dev_eq)


end
